theory Spec2Isabelle
  imports Main "HOL-Library.Sublist" "HOL-Library.AList"
begin

section \<open>Python strings\<close>

text \<open>
  The handlers of \<^verbatim>\<open>main.py\<close> work on Python \<^verbatim>\<open>str\<close> values. They are modelled as
  \<^typ>\<open>string\<close>, one \<^typ>\<open>char\<close> per character, for ASCII text: \<open>lower\<close> folds the
  letters A to Z, \<open>strip\<close> removes the ASCII characters for which \<^verbatim>\<open>str.isspace\<close> holds.
  Every keyword of the source is ASCII.
\<close>

definition whitespace :: "char list" where
  "whitespace = [CHR 0x09, CHR 0x0A, CHR 0x0B, CHR 0x0C, CHR 0x0D,
                 CHR 0x1C, CHR 0x1D, CHR 0x1E, CHR 0x1F, CHR 0x20]"

definition isspace :: "char \<Rightarrow> bool" where
  "isspace c = (c \<in> set whitespace)"

definition lower_char :: "char \<Rightarrow> char" where
  "lower_char c =
     (case map_of (zip ''ABCDEFGHIJKLMNOPQRSTUVWXYZ'' ''abcdefghijklmnopqrstuvwxyz'') c of
        None \<Rightarrow> c
      | Some l \<Rightarrow> l)"

text \<open>\<^verbatim>\<open>s.lower()\<close>\<close>

definition lower :: "string \<Rightarrow> string" where
  "lower s = map lower_char s"

text \<open>\<^verbatim>\<open>s.strip()\<close>\<close>

definition strip :: "string \<Rightarrow> string" where
  "strip s = rev (dropWhile isspace (rev (dropWhile isspace s)))"

text \<open>\<^verbatim>\<open>k in t\<close> on strings: \<open>k\<close> occurs in \<open>t\<close> as a contiguous substring.\<close>

fun contains :: "string \<Rightarrow> string \<Rightarrow> bool" where
  "contains k [] = (k = [])"
| "contains k (c # cs) = (prefix k (c # cs) \<or> contains k cs)"

text \<open>
  \<^verbatim>\<open>s.replace(old, new)\<close>: the occurrences of \<open>old\<close> are found from the left, without
  overlap, and the scan goes on behind each occurrence; what a replacement joins together
  is not scanned again.
\<close>

function replace :: "string \<Rightarrow> string \<Rightarrow> string \<Rightarrow> string" where
  "replace [] old new = (if old = [] then new else [])"
| "replace (c # cs) old new =
     (if old = [] then new @ c # replace cs old new
      else if prefix old (c # cs) then new @ replace (drop (length old) (c # cs)) old new
      else c # replace cs old new)"
  by pat_completeness auto
termination
  by (relation "measure (\<lambda>(s, old, new). length s)") (auto simp: Suc_le_eq)

text \<open>\<^verbatim>\<open>str(n)\<close> for a natural number and for an integer.\<close>

definition digit_char :: "nat \<Rightarrow> char" where
  "digit_char d = ''0123456789abcdef'' ! d"

fun str_nat :: "nat \<Rightarrow> string" where
  "str_nat n = (if n < 10 then [digit_char n] else str_nat (n div 10) @ [digit_char (n mod 10)])"

declare str_nat.simps [simp del]

definition str_int :: "int \<Rightarrow> string" where
  "str_int i = (if i < 0 then CHR ''-'' # str_nat (nat (- i)) else str_nat (nat i))"

section \<open>The document store\<close>

subsection \<open>Values and documents\<close>

text \<open>
  The values the three collections hold: the schemas of \<^verbatim>\<open>schemas.py\<close> have string,
  integer and optional fields and one list of strings (\<^verbatim>\<open>song_ids\<close>); the store adds
  the \<^verbatim>\<open>_id\<close> field, a 12-byte ObjectId, kept here as the number it encodes. A document
  is a Python \<^verbatim>\<open>dict\<close>: an association list with its insertion order. \<open>BOidShort\<close> is
  an \<^verbatim>\<open>ObjectId\<close> object that holds fewer than 12 bytes, given by its bytes: the
  constructor can build one from a string, the store never holds one.
\<close>

datatype bson = BNull | BInt int | BStr string | BOid nat | BArr "bson list" | BOidShort "nat list"

type_synonym document = "(string \<times> bson) list"

text \<open>
  \<^verbatim>\<open>str(ObjectId)\<close>: the bytes in lower-case hexadecimal digits, two for each byte, 24
  for the 12 bytes of a stored identifier.
\<close>

fun hex_digits :: "nat \<Rightarrow> nat \<Rightarrow> string" where
  "hex_digits 0 n = []"
| "hex_digits (Suc k) n = hex_digits k (n div 16) @ [digit_char (n mod 16)]"

definition oid_hex :: "nat \<Rightarrow> string" where
  "oid_hex n = hex_digits 24 n"

text \<open>
  \<^verbatim>\<open>str(v)\<close> of a stored value. The handlers apply it to the \<^verbatim>\<open>_id\<close> field only, which
  the store never lets be an array; the array case follows Python's list display with
  plainly quoted strings.
\<close>

fun py_str :: "bson \<Rightarrow> string" and py_repr :: "bson \<Rightarrow> string" and
    py_reprs :: "bson list \<Rightarrow> string" where
  "py_str BNull = ''None''"
| "py_str (BInt i) = str_int i"
| "py_str (BStr s) = s"
| "py_str (BOid n) = oid_hex n"
| "py_str (BArr vs) = ''['' @ py_reprs vs @ '']''"
| "py_str (BOidShort bs) = concat (map (hex_digits 2) bs)"
| "py_repr (BStr s) = [CHR 0x27] @ s @ [CHR 0x27]"
| "py_repr (BOid n) = ''ObjectId('' @ [CHR 0x27] @ oid_hex n @ [CHR 0x27] @ '')''"
| "py_repr BNull = ''None''"
| "py_repr (BInt i) = str_int i"
| "py_repr (BArr vs) = ''['' @ py_reprs vs @ '']''"
| "py_repr (BOidShort bs) =
     ''ObjectId('' @ [CHR 0x27] @ concat (map (hex_digits 2) bs) @ [CHR 0x27] @ '')''"
| "py_reprs [] = []"
| "py_reprs [v] = py_repr v"
| "py_reprs (v # w # vs) = py_repr v @ '', '' @ py_reprs (w # vs)"

text \<open>
  What a handler gets instead of a result: an exception, the \<^verbatim>\<open>HTTPException\<close> of a
  status and a detail, or the notice that the run has left what is modelled here, for a
  regular expression outside the fragment below and for an \<^verbatim>\<open>ObjectId\<close> of fewer than
  12 bytes that is sent to the store.
\<close>

datatype error = Exception string | HTTPException nat string | OutsideRegexFragment | ShortObjectId

definition hex_value :: "char \<Rightarrow> nat option" where
  "hex_value c = map_of (zip ''0123456789abcdefABCDEF''
     [0, 1, 2, 3, 4, 5, 6, 7, 8, 9, 10, 11, 12, 13, 14, 15, 10, 11, 12, 13, 14, 15]) c"

text \<open>
  \<^verbatim>\<open>bytes.fromhex(s)\<close>: the bytes of the pairs of hexadecimal digits of \<open>s\<close>. ASCII
  whitespace in front of a pair and behind the last one is skipped; whitespace inside a
  pair, a digit without its second digit and any other character are a \<^verbatim>\<open>ValueError\<close>,
  here \<open>None\<close>.
\<close>

definition ascii_space :: "char list" where
  "ascii_space = [CHR 0x09, CHR 0x0A, CHR 0x0B, CHR 0x0C, CHR 0x0D, CHR 0x20]"

fun fromhex :: "string \<Rightarrow> nat list option" where
  "fromhex [] = Some []"
| "fromhex [c] = (if c \<in> set ascii_space then Some [] else None)"
| "fromhex (c # d # cs) =
     (if c \<in> set ascii_space then fromhex (d # cs)
      else (case hex_value c of
              None \<Rightarrow> None
            | Some h \<Rightarrow>
                (case hex_value d of
                   None \<Rightarrow> None
                 | Some l \<Rightarrow> map_option (\<lambda>bs. (16 * h + l) # bs) (fromhex cs))))"

text \<open>
  \<^verbatim>\<open>bson.ObjectId(s)\<close> for a string: a string of 24 characters is handed to
  \<^verbatim>\<open>bytes.fromhex\<close> and the bytes it returns are the identifier; \<^verbatim>\<open>InvalidId\<close> is raised
  for any other length and when \<^verbatim>\<open>bytes.fromhex\<close> fails. The constructor does not count
  the bytes: 24 hexadecimal digits give the 12 bytes of an identifier, read as a number
  with the first byte in front, and a string with whitespace among its 24 characters gives
  fewer.
\<close>

definition ObjectId :: "string \<Rightarrow> error + bson" where
  "ObjectId s =
     (if length s = 24 then
        (case fromhex s of
           None \<Rightarrow> Inl (Exception ''InvalidId'')
         | Some bs \<Rightarrow>
             if length bs = 12 then Inr (BOid (foldl (\<lambda>a b. 256 * a + b) 0 bs))
             else Inr (BOidShort bs))
      else Inl (Exception ''InvalidId''))"

subsection \<open>Regular expressions of a filter\<close>

text \<open>
  A \<^verbatim>\<open>$regex\<close> condition hands its pattern to the store's regular-expression engine
  (Perl-compatible, searching anywhere in the subject). The model covers the fragment
  the claims need: literal characters, \<^verbatim>\<open>.\<close> (any character but a newline), \<^verbatim>\<open>^\<close> (start
  of the subject) and \<^verbatim>\<open>$\<close> (end of the subject, or just before a newline that ends it).
  A pattern with any other metacharacter is outside the fragment and the model gives
  \<open>OutsideRegexFragment\<close> for it instead of a result. Option \<^verbatim>\<open>i\<close> compares letters
  without case.
\<close>

datatype atom = Lit char | AnyChar | Bol | Eol

definition unsupported_metachars :: "char list" where
  "unsupported_metachars = [CHR 0x5C, CHR ''['', CHR '']'', CHR ''|'', CHR ''('', CHR '')'',
                            CHR ''?'', CHR ''*'', CHR ''+'', CHR ''{'', CHR ''}'']"

definition in_fragment :: "string \<Rightarrow> bool" where
  "in_fragment p = list_all (\<lambda>c. c \<notin> set unsupported_metachars) p"

definition atom_of :: "char \<Rightarrow> atom" where
  "atom_of c = (if c = CHR ''^'' then Bol else if c = CHR ''$'' then Eol
                else if c = CHR ''.'' then AnyChar else Lit c)"

definition char_eq :: "bool \<Rightarrow> char \<Rightarrow> char \<Rightarrow> bool" where
  "char_eq caseless c x = (if caseless then lower_char c = lower_char x else c = x)"

text \<open>
  \<open>match_here caseless as start rest\<close>: the atoms \<open>as\<close> match a prefix of \<open>rest\<close>, the
  part of the subject not yet consumed; \<open>start\<close> says that nothing of the subject lies
  before \<open>rest\<close>.
\<close>

fun match_here :: "bool \<Rightarrow> atom list \<Rightarrow> bool \<Rightarrow> string \<Rightarrow> bool" where
  "match_here caseless [] start rest = True"
| "match_here caseless (Lit c # as) start rest =
     (case rest of [] \<Rightarrow> False | x # xs \<Rightarrow> char_eq caseless c x \<and> match_here caseless as False xs)"
| "match_here caseless (AnyChar # as) start rest =
     (case rest of [] \<Rightarrow> False | x # xs \<Rightarrow> x \<noteq> CHR 0x0A \<and> match_here caseless as False xs)"
| "match_here caseless (Bol # as) start rest = (start \<and> match_here caseless as start rest)"
| "match_here caseless (Eol # as) start rest =
     ((rest = [] \<or> rest = [CHR 0x0A]) \<and> match_here caseless as start rest)"

fun search_from :: "bool \<Rightarrow> atom list \<Rightarrow> bool \<Rightarrow> string \<Rightarrow> bool" where
  "search_from caseless as start [] = match_here caseless as start []"
| "search_from caseless as start (x # xs) =
     (match_here caseless as start (x # xs) \<or> search_from caseless as False xs)"

definition regex_search :: "string \<Rightarrow> string \<Rightarrow> string \<Rightarrow> bool" where
  "regex_search pattern options subject =
     search_from (CHR ''i'' \<in> set options) (map atom_of pattern) True subject"

subsection \<open>Filters\<close>

text \<open>
  The filter documents the handlers build, as Python builds them:
  \<^verbatim>\<open>{field: {"$regex": p, "$options": o}}\<close> is \<open>Field field (Regex p o)\<close>,
  \<^verbatim>\<open>{field: {"$type": "objectId"}}\<close> is \<open>Field field TypeObjectId\<close>,
  \<^verbatim>\<open>{field: {"$eq": r}}\<close> with \<open>r\<close> the result of a \<^verbatim>\<open>find_one\<close> is \<open>Field field (EqFound r)\<close>,
  \<^verbatim>\<open>{field: v}\<close> is \<open>FieldIs field v\<close>, and \<^verbatim>\<open>{"$or": [{f1: c1}, {f2: c2}]}\<close> is
  \<open>AnyOf [(f1, c1), (f2, c2)]\<close>. The entries of one filter document hold together.
\<close>

datatype cond = Regex string string | TypeObjectId | EqFound "document option"

datatype clause = Field string cond | FieldIs string bson | AnyOf "(string \<times> cond) list"

type_synonym filter_q = "clause list"

text \<open>
  The values of a field that a condition is tried on: the value itself and, for an
  array, each of its elements.
\<close>

definition candidates :: "document \<Rightarrow> string \<Rightarrow> bson list" where
  "candidates d f =
     (case map_of d f of None \<Rightarrow> [] | Some (BArr vs) \<Rightarrow> BArr vs # vs | Some v \<Rightarrow> [v])"

definition is_null :: "document \<Rightarrow> string \<Rightarrow> bool" where
  "is_null d f = (map_of d f = None \<or> BNull \<in> set (candidates d f))"

fun cond_holds :: "cond \<Rightarrow> document \<Rightarrow> string \<Rightarrow> bool" where
  "cond_holds (Regex p opts) d f =
     list_ex (\<lambda>v. case v of BStr s \<Rightarrow> regex_search p opts s | _ \<Rightarrow> False) (candidates d f)"
| "cond_holds TypeObjectId d f =
     list_ex (\<lambda>v. case v of BOid n \<Rightarrow> True | _ \<Rightarrow> False) (candidates d f)"
| "cond_holds (EqFound None) d f = is_null d f"
| "cond_holds (EqFound (Some e)) d f = False"

fun clause_holds :: "clause \<Rightarrow> document \<Rightarrow> bool" where
  "clause_holds (Field f c) d = cond_holds c d f"
| "clause_holds (FieldIs f v) d = (if v = BNull then is_null d f else v \<in> set (candidates d f))"
| "clause_holds (AnyOf fcs) d = list_ex (\<lambda>(f, c). cond_holds c d f) fcs"

definition matches :: "filter_q \<Rightarrow> document \<Rightarrow> bool" where
  "matches q d = list_all (\<lambda>c. clause_holds c d) q"

fun cond_modelled :: "cond \<Rightarrow> bool" where
  "cond_modelled (Regex p opts) = in_fragment p"
| "cond_modelled c = True"

fun clause_modelled :: "clause \<Rightarrow> bool" where
  "clause_modelled (Field f c) = cond_modelled c"
| "clause_modelled (FieldIs f v) = True"
| "clause_modelled (AnyOf fcs) = list_all (\<lambda>(f, c). cond_modelled c) fcs"

definition filter_modelled :: "filter_q \<Rightarrow> bool" where
  "filter_modelled q = list_all clause_modelled q"

subsection \<open>The store handle and the client's operations\<close>

text \<open>
  \<^verbatim>\<open>db\<close> of the source is the store handle, \<^verbatim>\<open>None\<close> when the store is not configured:
  a \<open>database option\<close>. A \<open>database\<close> holds the collections by name, the next ObjectId
  the store will assign, and \<open>calls\<close>, the operations the handlers have invoked on the
  client, in order. \<open>on_empty_update\<close> is how the client treats an update document
  \<^verbatim>\<open>{}\<close>: \<open>Some msg\<close> when it refuses it, raising an error of message \<open>msg\<close>, and \<open>None\<close>
  when it passes it on to the store, which then replaces the matched document by the
  empty one, keeping its \<^verbatim>\<open>_id\<close>.
\<close>

datatype update = EmptyUpdate | AddToSet string bson

datatype op =
    Find string filter_q nat
  | FindOne string filter_q
  | CountDocuments string filter_q
  | UpdateOne string filter_q update
  | InsertOne string document

record database =
  on_empty_update :: "string option"
  collections :: "string \<Rightarrow> document list"
  next_oid :: nat
  calls :: "op list"

definition called :: "op \<Rightarrow> database \<Rightarrow> database" where
  "called c st = st\<lparr>calls := calls st @ [c]\<rparr>"

text \<open>\<^verbatim>\<open>db[c].find(q).limit(limit)\<close>, read to the end.\<close>

definition find_all :: "database \<Rightarrow> string \<Rightarrow> filter_q \<Rightarrow> nat \<Rightarrow> (error + document list) \<times> database" where
  "find_all st c q limit =
     (if filter_modelled q
      then (Inr (take limit (filter (matches q) (collections st c))), called (Find c q limit) st)
      else (Inl OutsideRegexFragment, called (Find c q limit) st))"

text \<open>\<^verbatim>\<open>db[c].find_one(q)\<close>: the first matching document, or \<^verbatim>\<open>None\<close>.\<close>

definition find_one :: "database \<Rightarrow> string \<Rightarrow> filter_q \<Rightarrow> (error + document option) \<times> database" where
  "find_one st c q =
     (if filter_modelled q
      then (Inr (List.find (matches q) (collections st c)), called (FindOne c q) st)
      else (Inl OutsideRegexFragment, called (FindOne c q) st))"

text \<open>\<^verbatim>\<open>db[c].count_documents(q)\<close>\<close>

definition count_documents :: "database \<Rightarrow> string \<Rightarrow> filter_q \<Rightarrow> (error + nat) \<times> database" where
  "count_documents st c q =
     (if filter_modelled q
      then (Inr (length (filter (matches q) (collections st c))), called (CountDocuments c q) st)
      else (Inl OutsideRegexFragment, called (CountDocuments c q) st))"

text \<open>
  \<^verbatim>\<open>$addToSet\<close> of one value on one field: the field is created as a one-element array
  when absent, left alone when the array holds the value already, extended at the end
  otherwise; the store refuses a field that is not an array.
\<close>

definition add_to_set :: "string \<Rightarrow> bson \<Rightarrow> document \<Rightarrow> error + document" where
  "add_to_set f v d =
     (case map_of d f of
        None \<Rightarrow> Inr (AList.update f (BArr [v]) d)
      | Some (BArr vs) \<Rightarrow> Inr (if v \<in> set vs then d else AList.update f (BArr (vs @ [v])) d)
      | Some other \<Rightarrow> Inl (Exception ''Cannot apply $addToSet to non-array field''))"

definition replace_by_empty :: "document \<Rightarrow> error + document" where
  "replace_by_empty d = Inr (case map_of d ''_id'' of None \<Rightarrow> [] | Some i \<Rightarrow> [(''_id'', i)])"

text \<open>The first document that satisfies \<open>P\<close> is changed by \<open>g\<close>; the others stay.\<close>

fun update_first ::
  "(document \<Rightarrow> bool) \<Rightarrow> (document \<Rightarrow> error + document) \<Rightarrow> document list \<Rightarrow> error + document list" where
  "update_first P g [] = Inr []"
| "update_first P g (d # ds) =
     (if P d then (case g d of Inl e \<Rightarrow> Inl e | Inr d' \<Rightarrow> Inr (d' # ds))
      else (case update_first P g ds of Inl e \<Rightarrow> Inl e | Inr ds' \<Rightarrow> Inr (d # ds')))"

text \<open>
  A filter that asks for a value equal to an \<^verbatim>\<open>ObjectId\<close> of fewer than 12 bytes. The
  encoding of an identifier has 12 bytes; what the driver sends for a shorter one, and
  what the store answers, is not modelled.
\<close>

fun short_id :: "clause \<Rightarrow> bool" where
  "short_id (FieldIs f (BOidShort bs)) = True"
| "short_id c = False"

text \<open>
  \<^verbatim>\<open>db[c].update_one(q, u)\<close>. The client checks the update document before it sends
  anything; the handlers ignore the result it returns.
\<close>

definition update_one :: "database \<Rightarrow> string \<Rightarrow> filter_q \<Rightarrow> update \<Rightarrow> (error + unit) \<times> database" where
  "update_one st c q u =
     (let st' = called (UpdateOne c q u) st in
      if u = EmptyUpdate \<and> on_empty_update st \<noteq> None
      then (Inl (Exception (case on_empty_update st of Some msg \<Rightarrow> msg | None \<Rightarrow> [])), st')
      else if \<not> filter_modelled q then (Inl OutsideRegexFragment, st')
      else if list_ex short_id q then (Inl ShortObjectId, st')
      else
        (case update_first (matches q)
                (case u of EmptyUpdate \<Rightarrow> replace_by_empty | AddToSet f v \<Rightarrow> add_to_set f v)
                (collections st c) of
           Inl e \<Rightarrow> (Inl e, st')
         | Inr ds \<Rightarrow> (Inr (), st'\<lparr>collections := (collections st')(c := ds)\<rparr>)))"

text \<open>
  \<^verbatim>\<open>db[c].insert_one(d)\<close> for a document without \<^verbatim>\<open>_id\<close>: the store assigns the next
  ObjectId, stores the document behind the others and returns the identifier.
\<close>

definition insert_one :: "database \<Rightarrow> string \<Rightarrow> document \<Rightarrow> bson \<times> database" where
  "insert_one st c d =
     (let st' = called (InsertOne c d) st; i = BOid (next_oid st) in
      (i, st'\<lparr>collections := (collections st')(c := collections st c @ [(''_id'', i) # d]),
              next_oid := Suc (next_oid st)\<rparr>))"

subsection \<open>The gateway\<close>

text \<open>
  Modelled from the spec: \<^verbatim>\<open>get_documents\<close> of the \<^verbatim>\<open>database\<close> module, which
  \<^verbatim>\<open>main.py\<close> imports and the sources do not hold. The gateway "executes filtered reads
  and inserts" against a collection, a limit "bounds result count", and an unset store
  handle is an operation failure that carries a message. The records come back as the
  store holds them; the handlers normalise the identifiers.
\<close>

definition get_documents ::
  "database option \<Rightarrow> string \<Rightarrow> filter_q \<Rightarrow> nat \<Rightarrow> (error + document list) \<times> database option" where
  "get_documents db c q limit =
     (case db of
        None \<Rightarrow> (Inl (Exception ''Database not available''), None)
      | Some st \<Rightarrow> (case find_all st c q limit of (r, st') \<Rightarrow> (r, Some st')))"

text \<open>
  Modelled from the spec: \<^verbatim>\<open>create_document\<close> of the \<^verbatim>\<open>database\<close> module, absent from
  the sources as well. It inserts the record of a validated schema object into the
  collection and returns the identifier the store assigned, as a string.
\<close>

definition create_document ::
  "database option \<Rightarrow> string \<Rightarrow> document \<Rightarrow> (error + string) \<times> database option" where
  "create_document db c d =
     (case db of
        None \<Rightarrow> (Inl (Exception ''Database not available''), None)
      | Some st \<Rightarrow> (case insert_one st c d of (i, st') \<Rightarrow> (Inr (py_str i), Some st')))"

section \<open>The handlers of main.py\<close>

text \<open>
  A handler takes the store handle and its request and returns what the client gets,
  \<open>Inr\<close> a response body or \<open>Inl\<close> the exception that leaves the handler, together with
  the store handle afterwards.
\<close>

datatype response =
    Items "document list"
  | OkTrue
  | Message string
  | Command string "document list option" string

text \<open>\<^verbatim>\<open>except Exception as e: raise HTTPException(status_code=500, detail=str(e))\<close>\<close>

fun internal_error :: "error \<Rightarrow> error" where
  "internal_error (Exception msg) = HTTPException 500 msg"
| "internal_error e = e"

text \<open>
  The loop over the documents read, in every list handler and in \<^verbatim>\<open>ai_command\<close>:
  \<^verbatim>\<open>if "_id" in d: d["id"] = str(d["_id"]); del d["_id"]\<close>
\<close>

definition normalize_id :: "document \<Rightarrow> document" where
  "normalize_id d =
     (case map_of d ''_id'' of
        None \<Rightarrow> d
      | Some v \<Rightarrow> AList.delete ''_id'' (AList.update ''id'' (BStr (py_str v)) d))"

text \<open>
  \<^verbatim>\<open>{"$or": [{f1: {"$regex": p, "$options": "i"}}, {f2: {"$regex": p, "$options": "i"}}]}\<close>
\<close>

definition either_field :: "string \<Rightarrow> string \<Rightarrow> string \<Rightarrow> clause" where
  "either_field f1 f2 p = AnyOf [(f1, Regex p ''i''), (f2, Regex p ''i'')]"

text \<open>\<^verbatim>\<open>{"$regex": f"^{genre}$", "$options": "i"}\<close> on the field \<^verbatim>\<open>genre\<close>\<close>

definition genre_clause :: "string \<Rightarrow> clause" where
  "genre_clause genre = Field ''genre'' (Regex (''^'' @ genre @ ''$'') ''i'')"

text \<open>
  \<^verbatim>\<open>filter_q\<close> of \<^verbatim>\<open>list_songs\<close> (lines 37 to 47). A parameter that is absent or the empty
  string is false for \<^verbatim>\<open>if query:\<close> and \<^verbatim>\<open>if genre:\<close>.
\<close>

definition songs_filter :: "string option \<Rightarrow> string option \<Rightarrow> filter_q" where
  "songs_filter query genre =
     (case query of
        None \<Rightarrow> []
      | Some q \<Rightarrow> if q = [] then [] else [either_field ''title'' ''artist'' q]) @
     (case genre of
        None \<Rightarrow> []
      | Some g \<Rightarrow> if g = [] then [] else [genre_clause g])"

definition list_songs ::
  "database option \<Rightarrow> string option \<Rightarrow> string option \<Rightarrow> nat \<Rightarrow> (error + response) \<times> database option" where
  "list_songs db query genre limit =
     (case get_documents db ''song'' (songs_filter query genre) limit of
        (Inl e, db') \<Rightarrow> (Inl (internal_error e), db')
      | (Inr docs, db') \<Rightarrow> (Inr (Items (map normalize_id docs)), db'))"

definition list_playlists :: "database option \<Rightarrow> nat \<Rightarrow> (error + response) \<times> database option" where
  "list_playlists db limit =
     (case get_documents db ''playlist'' [] limit of
        (Inl e, db') \<Rightarrow> (Inl (internal_error e), db')
      | (Inr docs, db') \<Rightarrow> (Inr (Items (map normalize_id docs)), db'))"

text \<open>\<^verbatim>\<open>filter_q\<close> of \<^verbatim>\<open>list_channels\<close> (lines 125 to 127).\<close>

definition channels_filter :: "string option \<Rightarrow> filter_q" where
  "channels_filter genre =
     (case genre of
        None \<Rightarrow> []
      | Some g \<Rightarrow> if g = [] then [] else [genre_clause g])"

definition list_channels ::
  "database option \<Rightarrow> string option \<Rightarrow> nat \<Rightarrow> (error + response) \<times> database option" where
  "list_channels db genre limit =
     (case get_documents db ''channel'' (channels_filter genre) limit of
        (Inl e, db') \<Rightarrow> (Inl (internal_error e), db')
      | (Inr docs, db') \<Rightarrow> (Inr (Items (map normalize_id docs)), db'))"

subsection \<open>Adding a song to a playlist\<close>

record PlaylistAddSong =
  playlist_id :: string
  song_id :: string

text \<open>
  \<^verbatim>\<open>except Exception:\<close> catches every exception; a run that has left the model is not
  one, its outcome stays unknown.
\<close>

fun caught :: "error \<Rightarrow> bool" where
  "caught (Exception msg) = True"
| "caught (HTTPException status detail) = True"
| "caught e = False"

text \<open>
  Lines 104 to 110: the update by \<^verbatim>\<open>_id\<close> when \<^verbatim>\<open>ObjectId(payload.playlist_id)\<close> is
  accepted, and the update by the field \<^verbatim>\<open>id\<close> when anything in the inner \<^verbatim>\<open>try\<close> raised,
  the constructor or the first update.
\<close>

definition add_by_identifier :: "database \<Rightarrow> PlaylistAddSong \<Rightarrow> (error + unit) \<times> database" where
  "add_by_identifier st payload =
     (let by_field = (\<lambda>s. update_one s ''playlist'' [FieldIs ''id'' (BStr (playlist_id payload))]
                             (AddToSet ''song_ids'' (BStr (song_id payload))))
      in case ObjectId (playlist_id payload) of
           Inl e \<Rightarrow> by_field st
         | Inr oid \<Rightarrow>
             (case update_one st ''playlist'' [FieldIs ''_id'' oid]
                     (AddToSet ''song_ids'' (BStr (song_id payload))) of
                (Inl e, st1) \<Rightarrow> if caught e then by_field st1 else (Inl e, st1)
              | (Inr u, st1) \<Rightarrow> (Inr u, st1)))"

text \<open>
  Line 102 comes first: a \<^verbatim>\<open>find_one\<close> whose filter, a dict display that gives the key
  \<^verbatim>\<open>_id\<close> twice, is \<^verbatim>\<open>{"_id": {"$type": "objectId"}}\<close>, and an \<^verbatim>\<open>update_one\<close> with its
  result under \<^verbatim>\<open>$eq\<close> and the update document \<^verbatim>\<open>{}\<close>.
\<close>

definition add_song_to_playlist ::
  "database option \<Rightarrow> PlaylistAddSong \<Rightarrow> (error + response) \<times> database option" where
  "add_song_to_playlist db payload =
     (case db of
        None \<Rightarrow> (Inl (HTTPException 500 ''Database not available''), None)
      | Some st \<Rightarrow>
          (case find_one st ''playlist'' [Field ''_id'' TypeObjectId] of
             (Inl e, st1) \<Rightarrow> (Inl (internal_error e), Some st1)
           | (Inr found, st1) \<Rightarrow>
               (case update_one st1 ''playlist'' [Field ''_id'' (EqFound found)] EmptyUpdate of
                  (Inl e, st2) \<Rightarrow> (Inl (internal_error e), Some st2)
                | (Inr u, st2) \<Rightarrow>
                    (case add_by_identifier st2 payload of
                       (Inl e, st3) \<Rightarrow> (Inl (internal_error e), Some st3)
                     | (Inr u', st3) \<Rightarrow> (Inr OkTrue, Some st3)))))"

subsection \<open>Seeding the channels\<close>

text \<open>
  \<^verbatim>\<open>ChannelSchema(name=..., description=..., stream_url=..., genre=...)\<close>, as the record
  that \<^verbatim>\<open>create_document\<close> receives.
\<close>

definition ChannelSchema :: "string \<Rightarrow> string \<Rightarrow> string \<Rightarrow> string \<Rightarrow> document" where
  "ChannelSchema name description stream_url genre =
     [(''name'', BStr name), (''description'', BStr description),
      (''stream_url'', BStr stream_url), (''genre'', BStr genre)]"

definition defaults :: "document list" where
  "defaults =
     [ChannelSchema ''Lofi Beats FM'' ''Chill lofi for focus''
        ''https://streams.ilovemusic.de/iloveradio9.mp3'' ''lofi'',
      ChannelSchema ''Classic Rock FM'' ''Rock anthems 24/7''
        ''https://stream.revma.ihrhls.com/zc1469'' ''rock'',
      ChannelSchema ''Jazz Lounge'' ''Smooth jazz and lounge''
        ''https://us4.internet-radio.com/proxy/club107?mp=/stream'' ''jazz'']"

text \<open>\<^verbatim>\<open>for ch in defaults: create_document("channel", ChannelSchema(**ch))\<close>\<close>

fun create_each :: "database option \<Rightarrow> document list \<Rightarrow> (error + unit) \<times> database option" where
  "create_each db [] = (Inr (), db)"
| "create_each db (ch # chs) =
     (case create_document db ''channel'' ch of
        (Inl e, db') \<Rightarrow> (Inl e, db')
      | (Inr new_id, db') \<Rightarrow> create_each db' chs)"

definition seed_channels :: "database option \<Rightarrow> (error + response) \<times> database option" where
  "seed_channels db =
     (case db of
        None \<Rightarrow> (Inl (HTTPException 500 ''Database not available''), None)
      | Some st \<Rightarrow>
          (case count_documents st ''channel'' [] of
             (Inl e, st1) \<Rightarrow> (Inl (internal_error e), Some st1)
           | (Inr n, st1) \<Rightarrow>
               if n > 0 then (Inr (Message ''Channels already seeded''), Some st1)
               else (case create_each (Some st1) defaults of
                       (Inl e, db') \<Rightarrow> (Inl (internal_error e), db')
                     | (Inr u, db') \<Rightarrow> (Inr (Message ''Seeded default channels''), db'))))"

subsection \<open>Voice commands\<close>

text \<open>The keyword lists of \<^verbatim>\<open>ai_command\<close>, lines 196, 213 and 216.\<close>

definition channel_keywords :: "string list" where
  "channel_keywords = [''play channel'', ''open channel'', ''play radio'', ''open radio'', ''fm'']"

definition song_keywords :: "string list" where
  "song_keywords = [''play song'', ''find song'', ''play'', ''find'', ''search'']"

definition removed_keywords :: "string list" where
  "removed_keywords = [''play song'', ''find song'', ''search song'', ''search'', ''play'']"

text \<open>\<^verbatim>\<open>any(k in t for k in ks)\<close>\<close>

definition any_in :: "string list \<Rightarrow> string \<Rightarrow> bool" where
  "any_in ks t = list_ex (\<lambda>k. contains k t) ks"

text \<open>
  Line 198: the five \<^verbatim>\<open>replace\<close> calls on \<^verbatim>\<open>t\<close>, for "play", "open", "channel",
  "radio" and "fm" in this order, each with the empty string, and \<^verbatim>\<open>strip\<close>.
\<close>

definition channel_keyword :: "string \<Rightarrow> string" where
  "channel_keyword t =
     strip (replace (replace (replace (replace (replace t ''play'' []) ''open'' [])
                       ''channel'' []) ''radio'' []) ''fm'' [])"

text \<open>
  Lines 215 to 217: \<^verbatim>\<open>keywords = t\<close>, then \<^verbatim>\<open>keywords = keywords.replace(k, "")\<close> for
  each \<^verbatim>\<open>k\<close> of the list.
\<close>

definition keywords_removed :: "string \<Rightarrow> string" where
  "keywords_removed t = foldl (\<lambda>keywords k. replace keywords k []) t removed_keywords"

text \<open>Line 218: \<^verbatim>\<open>query = keywords.strip()\<close>\<close>

definition song_query :: "string \<Rightarrow> string" where
  "song_query t = strip (keywords_removed t)"

text \<open>\<^verbatim>\<open>f = {}\<close>, and the \<^verbatim>\<open>$or\<close> of the two fields when the phrase is not empty.\<close>

definition phrase_filter :: "string \<Rightarrow> string \<Rightarrow> string \<Rightarrow> filter_q" where
  "phrase_filter f1 f2 phrase = (if phrase = [] then [] else [either_field f1 f2 phrase])"

text \<open>
  \<^verbatim>\<open>ai_command\<close> has no \<^verbatim>\<open>try\<close>: an exception of \<^verbatim>\<open>get_documents\<close> leaves the handler
  as it is.
\<close>

definition ai_command :: "database option \<Rightarrow> string \<Rightarrow> (error + response) \<times> database option" where
  "ai_command db transcript =
     (let t = strip (lower transcript) in
      if t = [] then
        (Inr (Command ''none'' None (''I didn'' @ [CHR 0x27] @ ''t catch that.'')), db)
      else if any_in channel_keywords t then
        (case get_documents db ''channel'' (phrase_filter ''name'' ''genre'' (channel_keyword t)) 5 of
           (Inl e, db') \<Rightarrow> (Inl e, db')
         | (Inr items, db') \<Rightarrow>
             (Inr (Command ''play_channel'' (Some (map normalize_id items))
                     (''Found '' @ str_nat (length items) @ '' channel(s)'')), db'))
      else if any_in song_keywords t then
        (case get_documents db ''song'' (phrase_filter ''title'' ''artist'' (song_query t)) 10 of
           (Inl e, db') \<Rightarrow> (Inl e, db')
         | (Inr items, db') \<Rightarrow>
             (Inr (Command ''play_song'' (Some (map normalize_id items))
                     (''Found '' @ str_nat (length items) @ '' song(s)'')), db'))
      else
        (Inr (Command ''none'' None
               (''Try: '' @ [CHR 0x27] @ ''Play channel jazz'' @ [CHR 0x27] @ '' or '' @
                [CHR 0x27] @ ''Find song by Coldplay'' @ [CHR 0x27])), db))"

subsection \<open>The residual phrase in the words of the specification\<close>

text \<open>
  The specification describes the residual phrase of the song intent as the lowercased
  transcript with the literal substrings "play song", "find song", "search song", "search"
  and "play" removed in that order, and then trimmed.
\<close>

definition residual_spec :: "string \<Rightarrow> string" where
  "residual_spec transcript =
     strip (replace (replace (replace (replace (replace (lower transcript)
       ''play song'' []) ''find song'' []) ''search song'' []) ''search'' []) ''play'' [])"

subsection \<open>A small store for the worked examples\<close>

definition sample_store :: database where
  "sample_store =
     \<lparr>on_empty_update = None,
      collections = (\<lambda>c.
        if c = ''song'' then
          [[(''_id'', BOid 1), (''title'', BStr ''Yellow''), (''artist'', BStr ''Coldplay''),
            (''genre'', BStr ''rock'')],
           [(''_id'', BOid 2), (''title'', BStr ''So What''), (''artist'', BStr ''Miles Davis''),
            (''genre'', BStr ''Rock Music'')]]
        else if c = ''playlist'' then
          [[(''_id'', BOid 3), (''name'', BStr ''mix''), (''description'', BNull),
            (''song_ids'', BArr [])]]
        else []),
      next_oid = 4,
      calls = []\<rparr>"

text \<open>The same store with one channel in it.\<close>

definition other_store :: database where
  "other_store = sample_store\<lparr>collections :=
     (collections sample_store)(''channel'' := [[(''_id'', BOid 9), (''name'', BStr ''Night Owl'')]])\<rparr>"

text \<open>
  The same store behind a client that validates update documents and refuses the empty
  one with a message.
\<close>

definition strict_store :: database where
  "strict_store = sample_store\<lparr>on_empty_update := Some ''update cannot be empty''\<rparr>"

subsection \<open>Properties of stored and returned documents\<close>

text \<open>
  Every document of a collection has the \<^verbatim>\<open>_id\<close> field, which the store gives to each
  document it holds.
\<close>

definition has_ids :: "database \<Rightarrow> string \<Rightarrow> bool" where
  "has_ids st c = list_all (\<lambda>d. map_of d ''_id'' \<noteq> None) (collections st c)"

text \<open>
  A returned item is normalised when it has no \<^verbatim>\<open>_id\<close> field and its field \<^verbatim>\<open>id\<close> is a
  string.
\<close>

definition normalized :: "document \<Rightarrow> bool" where
  "normalized d = (map_of d ''_id'' = None \<and> (case map_of d ''id'' of Some (BStr s) \<Rightarrow> True | _ \<Rightarrow> False))"

text \<open>
  A parameter is literal text when none of its characters is a metacharacter of the
  regular expressions: it then stands for itself in a pattern.
\<close>

definition literal_text :: "string \<Rightarrow> bool" where
  "literal_text p = list_all (\<lambda>c. c \<notin> set (''^$.'' @ unsupported_metachars)) p"

text \<open>The strings of a field that a \<^verbatim>\<open>$regex\<close> condition is tried on.\<close>

definition strings_of :: "document \<Rightarrow> string \<Rightarrow> string list" where
  "strings_of d f = concat (map (\<lambda>v. case v of BStr s \<Rightarrow> [s] | _ \<Rightarrow> []) (candidates d f))"

section \<open>Facts about the string operations\<close>

lemma isspace_lower_char: "isspace (lower_char c) = isspace c"
  unfolding lower_char_def isspace_def whitespace_def
  by (auto split: option.splits if_splits)

lemma dropWhile_isspace_lower: "dropWhile isspace (lower s) = lower (dropWhile isspace s)"
  by (induction s) (simp_all add: lower_def isspace_lower_char)

lemma rev_lower: "rev (lower s) = lower (rev s)"
  by (simp add: lower_def rev_map)

lemma strip_lower: "strip (lower s) = lower (strip s)"
  by (simp add: strip_def dropWhile_isspace_lower rev_lower)

lemma lower_eq_Nil: "(lower s = []) = (s = [])"
  by (simp add: lower_def)

lemma dropWhile_all_iff: "(\<forall>x\<in>set (dropWhile P s). P x) = (dropWhile P s = [])"
proof (cases "dropWhile P s")
  case Nil
  show ?thesis unfolding Nil by simp
next
  case (Cons y ys)
  then have "\<not> P (hd (dropWhile P s))" by (metis hd_dropWhile list.distinct(1))
  with Cons show ?thesis by auto
qed

lemma strip_eq_Nil: "(strip s = []) = (\<forall>c\<in>set s. isspace c)"
  by (simp add: strip_def dropWhile_eq_Nil_conv dropWhile_all_iff)

lemma contains_iff: "contains k t = (\<exists>a b. t = a @ k @ b)"
proof (induction t)
  case Nil
  then show ?case by auto
next
  case (Cons c cs)
  show ?case
  proof
    assume "contains k (c # cs)"
    then consider "prefix k (c # cs)" | "contains k cs" by auto
    then show "\<exists>a b. c # cs = a @ k @ b"
    proof cases
      case 1
      then obtain b where "c # cs = k @ b" by (auto simp: prefix_def)
      then have "c # cs = [] @ k @ b" by simp
      then show ?thesis by blast
    next
      case 2
      with Cons obtain a b where "cs = a @ k @ b" by auto
      then have "c # cs = (c # a) @ k @ b" by simp
      then show ?thesis by blast
    qed
  next
    assume "\<exists>a b. c # cs = a @ k @ b"
    then obtain a b where ab: "c # cs = a @ k @ b" by auto
    show "contains k (c # cs)"
    proof (cases a)
      case Nil
      with ab have "prefix k (c # cs)" by (simp add: prefix_def)
      then show ?thesis by simp
    next
      case (Cons x xs)
      with ab have "cs = xs @ k @ b" by simp
      with Cons.IH have "contains k cs" by blast
      then show ?thesis by simp
    qed
  qed
qed


lemma strip_frame:
  "\<exists>ws1 ws2. s = ws1 @ strip s @ ws2 \<and> (\<forall>c\<in>set ws1. isspace c) \<and> (\<forall>c\<in>set ws2. isspace c)"
proof -
  define m where "m = dropWhile isspace s"
  have s: "s = takeWhile isspace s @ m" by (simp add: m_def)
  have "rev (dropWhile isspace (rev m)) @ rev (takeWhile isspace (rev m)) = m"
    by (metis rev_append rev_rev_ident takeWhile_dropWhile_id)
  then have m: "m = strip s @ rev (takeWhile isspace (rev m))"
    unfolding strip_def m_def by (rule sym)
  have "s = takeWhile isspace s @ strip s @ rev (takeWhile isspace (rev m))"
    using s m by metis
  moreover have "\<forall>c\<in>set (takeWhile isspace s). isspace c"
    by (auto dest: set_takeWhileD)
  moreover have "\<forall>c\<in>set (rev (takeWhile isspace (rev m))). isspace c"
    by (auto dest: set_takeWhileD)
  ultimately show ?thesis by blast
qed

lemma strip_framed:
  assumes "\<forall>c\<in>set ws1. isspace c" and "\<forall>c\<in>set ws2. isspace c"
  shows "strip (ws1 @ x @ ws2) = strip x"
proof -
  have 1: "dropWhile isspace (ws1 @ x @ ws2) = dropWhile isspace (x @ ws2)"
    using assms(1) by (auto intro!: dropWhile_append2)
  show ?thesis
  proof (cases "\<forall>c\<in>set x. isspace c")
    case True
    have a: "dropWhile isspace (x @ ws2) = []"
      using True assms(2) by auto
    have b: "dropWhile isspace x = []"
      using True by simp
    show ?thesis unfolding strip_def 1 a b by simp
  next
    case False
    then obtain y where y: "y \<in> set x" "\<not> isspace y" by auto
    then have 2: "dropWhile isspace (x @ ws2) = dropWhile isspace x @ ws2"
      by (rule dropWhile_append1)
    have "dropWhile isspace (rev ws2 @ rev (dropWhile isspace x)) =
          dropWhile isspace (rev (dropWhile isspace x))"
      using assms(2) by (auto intro!: dropWhile_append2)
    then show ?thesis unfolding strip_def 1 2 by simp
  qed
qed

lemma dropWhile_keeps:
  assumes "k \<noteq> []" and "\<not> P (hd k)"
  shows "\<exists>a'. dropWhile P (a @ k @ b) = a' @ k @ b"
proof (induction a)
  case Nil
  from assms obtain x xs where "k = x # xs" "\<not> P x" by (cases k) auto
  then have "dropWhile P ([] @ k @ b) = [] @ k @ b" by simp
  then show ?case by blast
next
  case (Cons c cs)
  show ?case
  proof (cases "P c")
    case True
    with Cons show ?thesis by simp
  next
    case False
    then have "dropWhile P ((c # cs) @ k @ b) = (c # cs) @ k @ b" by simp
    then show ?thesis by blast
  qed
qed

lemma contains_strip:
  assumes "contains k s" and "k \<noteq> []" and "\<not> isspace (hd k)" and "\<not> isspace (last k)"
  shows "contains k (strip s)"
proof -
  from assms(1) obtain a b where "s = a @ k @ b" by (auto simp: contains_iff)
  then obtain a' where 1: "dropWhile isspace s = a' @ k @ b"
    using dropWhile_keeps [of k isspace a b] assms(2,3) by blast
  have "rev k \<noteq> []" "\<not> isspace (hd (rev k))"
    using assms(2,4) by (simp_all add: hd_rev)
  then obtain b' where "dropWhile isspace (rev b @ rev k @ rev a') = b' @ rev k @ rev a'"
    using dropWhile_keeps [of "rev k" isspace "rev b" "rev a'"] by blast
  then have "strip s = a' @ k @ rev b'"
    using 1 by (simp add: strip_def)
  then show ?thesis by (auto simp: contains_iff)
qed

lemma replace_absent: "\<not> contains k s \<Longrightarrow> replace s k [] = s"
  by (induction s) auto

lemma replace_spaces_front:
  assumes "k \<noteq> []" and "\<not> isspace (hd k)" and "\<forall>c\<in>set ws. isspace c"
  shows "replace (ws @ x) k [] = ws @ replace x k []"
  using assms(3)
proof (induction ws)
  case Nil
  then show ?case by simp
next
  case (Cons c cs)
  from assms(1,2) Cons.prems have "\<not> prefix k (c # cs @ x)"
    by (cases k) auto
  with Cons assms(1) show ?case by simp
qed

lemma replace_spaces_back:
  assumes "k \<noteq> []" and "\<not> isspace (hd k)" and "\<not> isspace (last k)"
    and "\<forall>c\<in>set ws. isspace c"
  shows "replace (m @ ws) k [] = replace m k [] @ ws"
proof (induction "length m" arbitrary: m rule: less_induct)
  case less
  show ?case
  proof (cases m)
    case Nil
    then show ?thesis
      using replace_spaces_front [of k ws "[]"] assms by simp
  next
    case (Cons c cs)
    show ?thesis
    proof (cases "prefix k m")
      case True
      then have p: "prefix k (c # cs @ ws)"
        using Cons by (metis append_Cons prefix_prefix)
      have len: "length k \<le> length m"
        using True by (rule prefix_length_le)
      then have "drop (length k) (m @ ws) = drop (length k) m @ ws"
        by simp
      then have d: "drop (length k) (c # cs @ ws) = drop (length k) m @ ws"
        unfolding Cons by simp
      have "length (drop (length k) m) < length m"
        using assms(1) Cons by simp
      then have "replace (drop (length k) m @ ws) k [] = replace (drop (length k) m) k [] @ ws"
        by (rule less)
      moreover have "replace (c # cs @ ws) k [] = replace (drop (length k) (c # cs @ ws)) k []"
        using p assms(1) by simp
      moreover have "replace (c # cs) k [] = replace (drop (length k) (c # cs)) k []"
        using True Cons assms(1) by simp
      ultimately show ?thesis
        using d Cons by simp
    next
      case False
      have np: "\<not> prefix k (c # cs @ ws)"
      proof
        assume "prefix k (c # cs @ ws)"
        then have "prefix k (m @ ws)" using Cons by simp
        then obtain us where us: "k = m @ us" "prefix us ws"
          using False by (auto simp: prefix_append)
        with False have "us \<noteq> []" by auto
        then have "last k = last us" "last us \<in> set us"
          using us(1) by simp_all
        moreover have "set us \<subseteq> set ws"
          using us(2) by (rule set_mono_prefix)
        ultimately show False
          using assms(3,4) by auto
      qed
      have "length cs < length m" using Cons by simp
      then have "replace (cs @ ws) k [] = replace cs k [] @ ws"
        by (rule less)
      then show ?thesis
        using np False Cons assms(1) by simp
    qed
  qed
qed

lemma replace_framed:
  assumes "k \<noteq> []" and "\<not> isspace (hd k)" and "\<not> isspace (last k)"
    and "\<forall>c\<in>set ws1. isspace c" and "\<forall>c\<in>set ws2. isspace c"
  shows "replace (ws1 @ m @ ws2) k [] = ws1 @ replace m k [] @ ws2"
  using assms by (simp add: replace_spaces_front replace_spaces_back)

lemma keyword_ends:
  "\<not> isspace (CHR ''p'')" "\<not> isspace (CHR ''g'')" "\<not> isspace (CHR ''f'')"
  "\<not> isspace (CHR ''s'')" "\<not> isspace (CHR ''h'')" "\<not> isspace (CHR ''y'')"
  "\<not> isspace (CHR ''o'')" "\<not> isspace (CHR ''l'')" "\<not> isspace (CHR ''m'')"
  "\<not> isspace (CHR ''d'')"
  by (simp_all add: isspace_def whitespace_def)

lemma song_query_framed:
  assumes "\<forall>c\<in>set ws1. isspace c" and "\<forall>c\<in>set ws2. isspace c"
  shows "song_query (ws1 @ m @ ws2) = song_query m"
  using assms
  by (simp add: song_query_def keywords_removed_def removed_keywords_def replace_framed keyword_ends strip_framed)

lemma song_query_residual_spec: "song_query (strip (lower transcript)) = residual_spec transcript"
proof -
  obtain ws1 ws2 where f: "lower transcript = ws1 @ strip (lower transcript) @ ws2"
    "\<forall>c\<in>set ws1. isspace c" "\<forall>c\<in>set ws2. isspace c"
    using strip_frame by blast
  have "residual_spec transcript = song_query (lower transcript)"
    by (simp add: residual_spec_def song_query_def keywords_removed_def removed_keywords_def)
  also have "\<dots> = song_query (ws1 @ strip (lower transcript) @ ws2)"
    using f(1) by simp
  also have "\<dots> = song_query (strip (lower transcript))"
    using f(2,3) by (rule song_query_framed)
  finally show ?thesis by simp
qed











lemma any_in_strip:
  assumes "any_in ks s" and "\<forall>k\<in>set ks. k \<noteq> [] \<and> \<not> isspace (hd k) \<and> \<not> isspace (last k)"
  shows "any_in ks (strip s)"
  using assms by (auto simp: any_in_def list_ex_iff intro: contains_strip)

lemma channel_keywords_ends:
  "\<forall>k\<in>set channel_keywords. k \<noteq> [] \<and> \<not> isspace (hd k) \<and> \<not> isspace (last k)"
  by (simp add: channel_keywords_def keyword_ends)

lemma any_in_nonempty:
  assumes "any_in ks s" and "\<forall>k\<in>set ks. k \<noteq> []"
  shows "s \<noteq> []"
  using assms by (auto simp: any_in_def list_ex_iff)

lemma song_query_find_song_by_coldplay: "song_query (strip (lower ''find song by Coldplay'')) = ''by cold''"
  by (simp add: song_query_def keywords_removed_def removed_keywords_def strip_def lower_def lower_char_def
      isspace_def whitespace_def)




lemma snd_find_all: "snd (find_all st c q l) = called (Find c q l) st"
  by (simp add: find_all_def)

lemma calls_called: "calls (called c st) = calls st @ [c]"
  by (simp add: called_def)

lemma fst_find_all_modelled:
  "filter_modelled q \<Longrightarrow> fst (find_all st c q l) = Inr (take l (filter (matches q) (collections st c)))"
  by (simp add: find_all_def)

lemma ai_command_song:
  assumes "strip (lower transcript) = t" and "t \<noteq> []"
    and "\<not> any_in channel_keywords t" and "any_in song_keywords t"
  shows "ai_command (Some st) transcript =
    (case find_all st ''song'' (phrase_filter ''title'' ''artist'' (song_query t)) 10 of
       (Inl e, st') \<Rightarrow> (Inl e, Some st')
     | (Inr items, st') \<Rightarrow>
         (Inr (Command ''play_song'' (Some (map normalize_id items))
                 (''Found '' @ str_nat (length items) @ '' song(s)'')), Some st'))"
  using assms by (simp add: ai_command_def get_documents_def split: prod.splits sum.splits)

lemma ai_command_song_calls:
  assumes "strip (lower transcript) = t" and "t \<noteq> []"
    and "\<not> any_in channel_keywords t" and "any_in song_keywords t"
  shows "map_option calls (snd (ai_command (Some st) transcript)) =
           Some (calls st @ [Find ''song'' (phrase_filter ''title'' ''artist'' (song_query t)) 10])"
proof -
  obtain r st' where f: "find_all st ''song'' (phrase_filter ''title'' ''artist'' (song_query t)) 10 = (r, st')"
    by (cases "find_all st ''song'' (phrase_filter ''title'' ''artist'' (song_query t)) 10")
  then have "st' = called (Find ''song'' (phrase_filter ''title'' ''artist'' (song_query t)) 10) st"
    using snd_find_all [of st "''song''" "phrase_filter ''title'' ''artist'' (song_query t)" 10] by simp
  then show ?thesis
    using f ai_command_song [OF assms, of st] by (cases r) (simp_all add: calls_called)
qed

lemma ai_command_channel:
  assumes "strip (lower transcript) = t" and "any_in channel_keywords t"
  shows "ai_command db transcript =
    (case get_documents db ''channel'' (phrase_filter ''name'' ''genre'' (channel_keyword t)) 5 of
       (Inl e, db') \<Rightarrow> (Inl e, db')
     | (Inr items, db') \<Rightarrow>
         (Inr (Command ''play_channel'' (Some (map normalize_id items))
                 (''Found '' @ str_nat (length items) @ '' channel(s)'')), db'))"
proof -
  have "t \<noteq> []"
    using assms(2) by (rule any_in_nonempty) (simp add: channel_keywords_def)
  then show ?thesis
    using assms by (simp add: ai_command_def)
qed

lemma get_documents_Some:
  "get_documents (Some st) c q l = (fst (find_all st c q l), Some (called (Find c q l) st))"
  by (simp add: get_documents_def find_all_def)

section \<open>Facts about the store and the handlers\<close>

lemma normalize_id_no_raw: "map_of (normalize_id d) ''_id'' = None"
  by (simp add: normalize_id_def AList.delete_conv' split: option.splits)

lemma normalize_id_string_id:
  "map_of d ''_id'' = Some v \<Longrightarrow> map_of (normalize_id d) ''id'' = Some (BStr (py_str v))"
  by (simp add: normalize_id_def AList.update_conv')

lemma normalized_normalize_id: "map_of d ''_id'' \<noteq> None \<Longrightarrow> normalized (normalize_id d)"
  by (auto simp: normalized_def normalize_id_no_raw normalize_id_string_id)

lemma get_documents_subset:
  assumes "fst (get_documents (Some st) c q l) = Inr docs"
  shows "set docs \<subseteq> set (collections st c)"
proof -
  have "docs = take l (filter (matches q) (collections st c))"
    using assms by (simp add: get_documents_def find_all_def split: if_splits)
  then show ?thesis
    by (auto dest: in_set_takeD)
qed

lemma items_normalized:
  assumes "has_ids st c" and "fst (get_documents (Some st) c q l) = Inr docs"
  shows "list_all normalized (map normalize_id docs)"
proof -
  have "\<forall>d\<in>set docs. map_of d ''_id'' \<noteq> None"
    using assms(1) get_documents_subset [OF assms(2)] by (auto simp: has_ids_def list_all_iff)
  then show ?thesis
    by (simp add: list_all_iff normalized_normalize_id)
qed

lemma count_documents_all:
  "count_documents st c [] = (Inr (length (collections st c)), called (CountDocuments c []) st)"
  by (simp add: count_documents_def filter_modelled_def matches_def)

lemma collections_called: "collections (called c st) = collections st"
  by (simp add: called_def)

lemma next_oid_called: "next_oid (called c st) = next_oid st"
  by (simp add: called_def)

lemma create_document_Some:
  "create_document (Some st) c d =
     (Inr (py_str (BOid (next_oid st))),
      Some ((called (InsertOne c d) st)
        \<lparr>collections := (collections st)(c := collections st c @ [(''_id'', BOid (next_oid st)) # d]),
         next_oid := Suc (next_oid st)\<rparr>))"
  by (simp add: create_document_def insert_one_def Let_def collections_called)

lemma create_each_Some:
  "\<exists>st'. create_each (Some st) ds = (Inr (), Some st') \<and>
     collections st' ''channel'' =
       collections st ''channel'' @
         map (\<lambda>(i, d). (''_id'', BOid (next_oid st + i)) # d) (zip [0..<length ds] ds) \<and>
     (\<forall>c. c \<noteq> ''channel'' \<longrightarrow> collections st' c = collections st c) \<and>
     calls st' = calls st @ map (InsertOne ''channel'') ds"
proof (induction ds arbitrary: st)
  case Nil
  then show ?case by simp
next
  case (Cons d ds)
  define st1 where "st1 = (called (InsertOne ''channel'' d) st)
        \<lparr>collections := (collections st)(''channel'' := collections st ''channel'' @ [(''_id'', BOid (next_oid st)) # d]),
         next_oid := Suc (next_oid st)\<rparr>"
  obtain st' where st': "create_each (Some st1) ds = (Inr (), Some st')"
    "collections st' ''channel'' = collections st1 ''channel'' @
         map (\<lambda>(i, d). (''_id'', BOid (next_oid st1 + i)) # d) (zip [0..<length ds] ds)"
    "\<forall>c. c \<noteq> ''channel'' \<longrightarrow> collections st' c = collections st1 c"
    "calls st' = calls st1 @ map (InsertOne ''channel'') ds"
    using Cons.IH [of st1] by blast
  have 1: "create_each (Some st) (d # ds) = (Inr (), Some st')"
    using st'(1) by (simp add: create_document_Some st1_def)
  have z: "zip [0..<length (d # ds)] (d # ds) = (0, d) # zip (map Suc [0..<length ds]) ds"
    by (simp add: upt_conv_Cons map_Suc_upt del: upt_Suc)
  have 2: "collections st' ''channel'' = collections st ''channel'' @
         map (\<lambda>(i, d). (''_id'', BOid (next_oid st + i)) # d) (zip [0..<length (d # ds)] (d # ds))"
    unfolding z st'(2) by (simp add: st1_def zip_map1 case_prod_beta)
  have 3: "\<forall>c. c \<noteq> ''channel'' \<longrightarrow> collections st' c = collections st c"
    using st'(3) by (simp add: st1_def)
  have 4: "calls st' = calls st @ map (InsertOne ''channel'') (d # ds)"
    using st'(4) by (simp add: st1_def called_def)
  from 1 2 3 4 show ?case by blast
qed

lemma update_one_calls: "calls (snd (update_one st c q u)) = calls st @ [UpdateOne c q u]"
  by (simp add: update_one_def Let_def called_def split: sum.splits)

lemma update_one_refused:
  "on_empty_update st = Some msg \<Longrightarrow>
     update_one st c q EmptyUpdate = (Inl (Exception msg), called (UpdateOne c q EmptyUpdate) st)"
  by (simp add: update_one_def Let_def)

lemma find_one_typed:
  "find_one st c [Field ''_id'' TypeObjectId] =
     (Inr (List.find (matches [Field ''_id'' TypeObjectId]) (collections st c)),
      called (FindOne c [Field ''_id'' TypeObjectId]) st)"
  by (simp add: find_one_def filter_modelled_def)

lemma ObjectId_hex: "ObjectId ''0000000000000000000001fF'' = Inr (BOid 511)"
  by (simp add: ObjectId_def hex_value_def ascii_space_def)

lemma ObjectId_whitespace:
  "ObjectId ''00 00 00 00 00 00 00 00 '' = Inr (BOidShort [0, 0, 0, 0, 0, 0, 0, 0])"
  by (simp add: ObjectId_def hex_value_def ascii_space_def)

lemma ObjectId_split_pair: "ObjectId ''0 0000000000000000000000'' = Inl (Exception ''InvalidId'')"
  by (simp add: ObjectId_def hex_value_def ascii_space_def)

lemma ObjectId_length: "length s \<noteq> 24 \<Longrightarrow> ObjectId s = Inl (Exception ''InvalidId'')"
  by (simp add: ObjectId_def)

lemma add_by_identifier_whitespace:
  "add_by_identifier st \<lparr>playlist_id = ''00 00 00 00 00 00 00 00 '', song_id = sid\<rparr> =
     (Inl ShortObjectId,
      called (UpdateOne ''playlist'' [FieldIs ''_id'' (BOidShort [0, 0, 0, 0, 0, 0, 0, 0])]
                (AddToSet ''song_ids'' (BStr sid))) st)"
  by (simp add: add_by_identifier_def ObjectId_whitespace update_one_def Let_def filter_modelled_def)

lemma add_by_identifier_calls:
  "\<exists>rest. calls (snd (add_by_identifier st payload)) = calls st @ rest \<and>
     (\<forall>c\<in>set rest. \<exists>q. c = UpdateOne ''playlist'' q (AddToSet ''song_ids'' (BStr (song_id payload))))"
proof (cases "ObjectId (playlist_id payload)")
  case (Inl e)
  then have "add_by_identifier st payload =
      update_one st ''playlist'' [FieldIs ''id'' (BStr (playlist_id payload))]
        (AddToSet ''song_ids'' (BStr (song_id payload)))"
    by (simp add: add_by_identifier_def)
  then show ?thesis by (simp add: update_one_calls)
next
  case (Inr oid)
  obtain r st1 where u: "update_one st ''playlist'' [FieldIs ''_id'' oid]
      (AddToSet ''song_ids'' (BStr (song_id payload))) = (r, st1)"
    by (cases "update_one st ''playlist'' [FieldIs ''_id'' oid]
      (AddToSet ''song_ids'' (BStr (song_id payload)))")
  then have c1: "calls st1 = calls st @ [UpdateOne ''playlist'' [FieldIs ''_id'' oid]
      (AddToSet ''song_ids'' (BStr (song_id payload)))]"
    using update_one_calls [of st "''playlist''" "[FieldIs ''_id'' oid]"
        "AddToSet ''song_ids'' (BStr (song_id payload))"] by simp
  show ?thesis
  proof (cases r)
    case (Inl e)
    show ?thesis
    proof (cases "caught e")
      case True
      then have "add_by_identifier st payload =
          update_one st1 ''playlist'' [FieldIs ''id'' (BStr (playlist_id payload))]
            (AddToSet ''song_ids'' (BStr (song_id payload)))"
        using Inl Inr u by (simp add: add_by_identifier_def)
      then show ?thesis by (simp add: update_one_calls c1)
    next
      case False
      then have "add_by_identifier st payload = (Inl e, st1)"
        using Inl Inr u by (simp add: add_by_identifier_def)
      then show ?thesis by (simp add: c1)
    qed
  next
    case (Inr x)
    then have "add_by_identifier st payload = (Inr x, st1)"
      using \<open>ObjectId (playlist_id payload) = Inr oid\<close> u by (simp add: add_by_identifier_def)
    then show ?thesis by (simp add: c1)
  qed
qed

section \<open>Facts about the filters\<close>

lemma literal_text_atoms: "literal_text p \<Longrightarrow> map atom_of p = map Lit p"
  by (induction p) (auto simp: literal_text_def atom_of_def)

lemma literal_text_in_fragment: "literal_text p \<Longrightarrow> in_fragment p"
  by (induction p) (auto simp: literal_text_def in_fragment_def)

lemma lower_char_newline: "(lower_char x = CHR 0x0A) = (x = CHR 0x0A)"
  unfolding lower_char_def by (auto split: option.splits if_splits)

lemma lower_eq_newline: "(lower r = [CHR 0x0A]) = (r = [CHR 0x0A])"
  by (cases r) (auto simp: lower_def lower_char_newline)

lemma match_here_literal:
  "match_here True (map Lit p) start rest = prefix (lower p) (lower rest)"
proof (induction p arbitrary: start rest)
  case Nil
  then show ?case by (simp add: lower_def)
next
  case (Cons c p)
  then show ?case
    by (cases rest) (auto simp: lower_def char_eq_def)
qed

lemma match_here_literal_end:
  "match_here True (map Lit p @ [Eol]) start rest =
     (lower rest = lower p \<or> lower rest = lower p @ [CHR 0x0A])"
proof (induction p arbitrary: start rest)
  case Nil
  show ?case
    using lower_eq_newline [of rest] by (auto simp: lower_def)
next
  case (Cons c p)
  show ?case
  proof (cases rest)
    case Nil
    then show ?thesis by (simp add: lower_def)
  next
    case (Cons x xs)
    have "match_here True (map Lit (c # p) @ [Eol]) start (x # xs) =
        (lower_char c = lower_char x \<and> match_here True (map Lit p @ [Eol]) False xs)"
      by (simp add: char_eq_def)
    also have "\<dots> = (lower_char c = lower_char x \<and>
        (lower xs = lower p \<or> lower xs = lower p @ [CHR 0x0A]))"
      using Cons.IH [of False xs] by simp
    also have "\<dots> = (lower (x # xs) = lower (c # p) \<or> lower (x # xs) = lower (c # p) @ [CHR 0x0A])"
      by (auto simp: lower_def)
    finally show ?thesis unfolding Cons .
  qed
qed

lemma search_from_literal:
  "search_from True (map Lit p) start s = contains (lower p) (lower s)"
proof (induction s arbitrary: start)
  case Nil
  then show ?case by (simp add: match_here_literal lower_def)
next
  case (Cons x xs)
  have "search_from True (map Lit p) start (x # xs) =
      (prefix (lower p) (lower (x # xs)) \<or> contains (lower p) (lower xs))"
    using Cons [of False] by (simp add: match_here_literal)
  then show ?case by (simp add: lower_def)
qed

lemma search_from_Bol: "search_from caseless (Bol # as) False s = False"
  by (induction s) simp_all

lemma search_from_anchored:
  "search_from True (Bol # map Lit g @ [Eol]) True s =
     (lower s = lower g \<or> lower s = lower g @ [CHR 0x0A])"
  by (cases s) (simp_all add: search_from_Bol match_here_literal_end)

lemma regex_search_literal:
  "literal_text p \<Longrightarrow> regex_search p ''i'' s = contains (lower p) (lower s)"
  by (simp add: regex_search_def literal_text_atoms search_from_literal)

lemma regex_search_anchored:
  "literal_text g \<Longrightarrow>
     regex_search (''^'' @ g @ ''$'') ''i'' s = (lower s = lower g \<or> lower s = lower g @ [CHR 0x0A])"
  using search_from_anchored [of g s]
  by (simp add: regex_search_def literal_text_atoms atom_of_def)

lemma strings_of_iff: "(s \<in> set (strings_of d f)) = (BStr s \<in> set (candidates d f))"
  by (auto simp: strings_of_def split: bson.splits)

lemma cond_holds_Regex:
  "cond_holds (Regex p opts) d f = (\<exists>s\<in>set (strings_of d f). regex_search p opts s)"
proof
  assume "cond_holds (Regex p opts) d f"
  then obtain v where v: "v \<in> set (candidates d f)"
    "case v of BStr s \<Rightarrow> regex_search p opts s | _ \<Rightarrow> False"
    by (auto simp: list_ex_iff)
  from v(2) obtain s where "v = BStr s" "regex_search p opts s"
    by (cases v) simp_all
  with v(1) show "\<exists>s\<in>set (strings_of d f). regex_search p opts s"
    by (auto simp: strings_of_iff)
next
  assume "\<exists>s\<in>set (strings_of d f). regex_search p opts s"
  then obtain s where "BStr s \<in> set (candidates d f)" "regex_search p opts s"
    by (auto simp: strings_of_iff)
  then show "cond_holds (Regex p opts) d f"
    by (auto simp: list_ex_iff intro!: bexI [of _ "BStr s"])
qed

lemma regex_search_anchored_Cons:
  "literal_text g \<Longrightarrow>
     regex_search (CHR ''^'' # g @ ''$'') ''i'' s = (lower s = lower g \<or> lower s = lower g @ [CHR 0x0A])"
  using regex_search_anchored [of g s] by simp

lemma matches_genre:
  assumes "literal_text genre"
  shows "matches [genre_clause genre] d =
    (\<exists>s\<in>set (strings_of d ''genre''). lower s = lower genre \<or> lower s = lower genre @ [CHR 0x0A])"
  using assms
  by (simp add: matches_def genre_clause_def cond_holds_Regex regex_search_anchored_Cons
      del: cond_holds.simps)

lemma matches_either:
  assumes "literal_text query"
  shows "matches [either_field f1 f2 query] d =
    ((\<exists>s\<in>set (strings_of d f1). contains (lower query) (lower s)) \<or>
     (\<exists>s\<in>set (strings_of d f2). contains (lower query) (lower s)))"
  using assms
  by (simp add: matches_def either_field_def cond_holds_Regex regex_search_literal
      del: cond_holds.simps)

lemma filter_modelled_genre: "literal_text genre \<Longrightarrow> filter_modelled [genre_clause genre]"
  by (induction genre)
     (auto simp: filter_modelled_def genre_clause_def literal_text_def in_fragment_def
        unsupported_metachars_def)

lemma filter_modelled_either: "literal_text query \<Longrightarrow> filter_modelled [either_field f1 f2 query]"
  by (simp add: filter_modelled_def either_field_def literal_text_in_fragment)

section \<open>The claims\<close>

text \<open>
  C9. A transcript that is empty, or holds white space only, gets the answer with action
  \<open>none\<close> and the message of line 193, and the store handle comes back as it was: its
  list of calls has not grown, so no query was made.
\<close>

theorem ai_command_empty_transcript:
  assumes "strip transcript = []"
  shows "ai_command db transcript =
           (Inr (Command ''none'' None (''I didn'' @ [CHR 0x27] @ ''t catch that.'')), db)"
  using assms by (simp add: ai_command_def strip_lower lower_eq_Nil)

theorem ai_command_empty_transcript_witness:
  "strip [CHR 0x20, CHR 0x09] = [] \<and>
   ai_command (Some \<lparr>on_empty_update = None, collections = (\<lambda>c. []), next_oid = 0, calls = []\<rparr>)
       [CHR 0x20, CHR 0x09] =
     (Inr (Command ''none'' None (''I didn'' @ [CHR 0x27] @ ''t catch that.'')),
      Some \<lparr>on_empty_update = None, collections = (\<lambda>c. []), next_oid = 0, calls = []\<rparr>)"
proof -
  have h: "strip [CHR 0x20, CHR 0x09] = []"
    by (simp add: strip_def isspace_def whitespace_def)
  show ?thesis
    using h ai_command_empty_transcript [OF h] by simp
qed

text \<open>
  C3. The residual phrase of the song intent is the lowercased transcript with the five
  substrings removed in the order of the source and then trimmed: the query of the handler,
  taken on the trimmed lowercased transcript, equals the phrase in the words of the
  specification, and that phrase is what the handler searches the song collection for. The
  last removal, of "play", also applies inside "coldplay": the transcript
  "find song by Coldplay" yields "by cold".
\<close>

theorem residual_phrase_in_order:
  "song_query (strip (lower transcript)) = residual_spec transcript \<and>
   (strip (lower transcript) \<noteq> [] \<and>
    \<not> any_in channel_keywords (strip (lower transcript)) \<and>
    any_in song_keywords (strip (lower transcript)) \<longrightarrow>
      map_option calls (snd (ai_command (Some st) transcript)) =
        Some (calls st @
          [Find ''song'' (phrase_filter ''title'' ''artist'' (residual_spec transcript)) 10])) \<and>
   residual_spec ''find song by Coldplay'' = ''by cold''"
proof (intro conjI impI)
  show "song_query (strip (lower transcript)) = residual_spec transcript"
    by (rule song_query_residual_spec)
next
  assume a: "strip (lower transcript) \<noteq> [] \<and>
    \<not> any_in channel_keywords (strip (lower transcript)) \<and>
    any_in song_keywords (strip (lower transcript))"
  show "map_option calls (snd (ai_command (Some st) transcript)) =
        Some (calls st @
          [Find ''song'' (phrase_filter ''title'' ''artist'' (residual_spec transcript)) 10])"
    using ai_command_song_calls [OF refl, of transcript st] a
    by (simp add: song_query_residual_spec)
next
  show "residual_spec ''find song by Coldplay'' = ''by cold''"
    using song_query_find_song_by_coldplay by (simp only: song_query_residual_spec)
qed

theorem residual_phrase_in_order_witness:
  "strip (lower ''find song by Coldplay'') \<noteq> [] \<and>
   \<not> any_in channel_keywords (strip (lower ''find song by Coldplay'')) \<and>
   any_in song_keywords (strip (lower ''find song by Coldplay'')) \<and>
   map_option calls (snd (ai_command (Some sample_store) ''find song by Coldplay'')) =
     Some [Find ''song'' [either_field ''title'' ''artist'' ''by cold''] 10]"
proof -
  have h: "strip (lower ''find song by Coldplay'') \<noteq> [] \<and>
     \<not> any_in channel_keywords (strip (lower ''find song by Coldplay'')) \<and>
     any_in song_keywords (strip (lower ''find song by Coldplay''))"
    by (simp add: any_in_def channel_keywords_def song_keywords_def strip_def lower_def
        lower_char_def isspace_def whitespace_def)
  have c: "calls sample_store = []"
    by (simp add: sample_store_def)
  note t = residual_phrase_in_order [of "''find song by Coldplay''" sample_store]
  from t have r: "residual_spec ''find song by Coldplay'' = ''by cold''"
    by blast
  from t h have "map_option calls (snd (ai_command (Some sample_store) ''find song by Coldplay'')) =
      Some (calls sample_store @ [Find ''song''
        (phrase_filter ''title'' ''artist'' (residual_spec ''find song by Coldplay'')) 10])"
    by blast
  then have "map_option calls (snd (ai_command (Some sample_store) ''find song by Coldplay'')) =
      Some [Find ''song'' [either_field ''title'' ''artist'' ''by cold''] 10]"
    unfolding r c by (simp add: phrase_filter_def)
  with h show ?thesis by blast
qed

text \<open>
  C3, as stated: the example of the claim gives "by coldplay" for the transcript
  "find song by Coldplay". The handler computes "by cold".
\<close>

theorem residual_example_counterexample:
  "song_query (strip (lower ''find song by Coldplay'')) = ''by cold'' \<and>
   song_query (strip (lower ''find song by Coldplay'')) \<noteq> ''by coldplay''"
  using song_query_find_song_by_coldplay by simp

text \<open>
  C4. A transcript whose lowercased form contains a channel keyword and a song keyword is
  answered with action \<open>play_channel\<close> whenever the handler answers at all, the one query
  it makes is against the channel collection with limit 5, and it does answer when the
  store handle is set and the keyword left over is within the modelled fragment of
  regular expressions.
\<close>

theorem channel_intent_first:
  assumes "any_in channel_keywords (lower transcript)"
    and "any_in song_keywords (lower transcript)"
  shows "(\<forall>r. fst (ai_command db transcript) = Inr r \<longrightarrow>
            (\<exists>items msg. r = Command ''play_channel'' items msg)) \<and>
         (\<exists>q. map_option calls (snd (ai_command (Some st) transcript)) =
                 Some (calls st @ [Find ''channel'' q 5])) \<and>
         (filter_modelled
            (phrase_filter ''name'' ''genre'' (channel_keyword (strip (lower transcript)))) \<longrightarrow>
            (\<exists>items msg. fst (ai_command (Some st) transcript) =
                 Inr (Command ''play_channel'' (Some items) msg)))"
proof -
  define t where "t = strip (lower transcript)"
  have ch: "any_in channel_keywords t"
    unfolding t_def using assms(1) channel_keywords_ends by (rule any_in_strip)
  note eq = ai_command_channel [OF t_def [symmetric] ch]
  have 1: "\<forall>r. fst (ai_command db transcript) = Inr r \<longrightarrow>
            (\<exists>items msg. r = Command ''play_channel'' items msg)"
    unfolding eq [of db] by (auto split: prod.splits sum.splits)
  have 2: "\<exists>q. map_option calls (snd (ai_command (Some st) transcript)) =
                 Some (calls st @ [Find ''channel'' q 5])"
    unfolding eq [of "Some st"] get_documents_Some
    by (cases "fst (find_all st ''channel'' (phrase_filter ''name'' ''genre'' (channel_keyword t)) 5)")
       (simp_all add: calls_called)
  have 3: "filter_modelled (phrase_filter ''name'' ''genre'' (channel_keyword t)) \<longrightarrow>
            (\<exists>items msg. fst (ai_command (Some st) transcript) =
                 Inr (Command ''play_channel'' (Some items) msg))"
    unfolding eq [of "Some st"] get_documents_Some
    by (simp add: fst_find_all_modelled)
  from 1 2 3 show ?thesis unfolding t_def by blast
qed

theorem channel_intent_first_witness:
  "any_in channel_keywords (lower ''Play channel jazz'') \<and>
   any_in song_keywords (lower ''Play channel jazz'') \<and>
   (\<exists>items msg. fst (ai_command (Some sample_store) ''Play channel jazz'') =
      Inr (Command ''play_channel'' (Some items) msg))"
proof -
  have a: "any_in channel_keywords (lower ''Play channel jazz'')"
    by (simp add: any_in_def channel_keywords_def lower_def lower_char_def)
  have b: "any_in song_keywords (lower ''Play channel jazz'')"
    by (simp add: any_in_def song_keywords_def lower_def lower_char_def)
  have k: "channel_keyword (strip (lower ''Play channel jazz'')) = ''jazz''"
    by (simp add: channel_keyword_def strip_def lower_def lower_char_def isspace_def whitespace_def)
  have m: "filter_modelled
     (phrase_filter ''name'' ''genre'' (channel_keyword (strip (lower ''Play channel jazz''))))"
    unfolding k
    by (simp add: filter_modelled_def phrase_filter_def either_field_def in_fragment_def
        unsupported_metachars_def)
  from channel_intent_first [OF a b, of "Some sample_store" sample_store] m
  have "\<exists>items msg. fst (ai_command (Some sample_store) ''Play channel jazz'') =
      Inr (Command ''play_channel'' (Some items) msg)"
    by blast
  with a b show ?thesis by blast
qed




text \<open>
  C8. When every stored document has its \<^verbatim>\<open>_id\<close>, every item that \<^verbatim>\<open>list_songs\<close>,
  \<^verbatim>\<open>list_playlists\<close>, \<^verbatim>\<open>list_channels\<close> and \<^verbatim>\<open>ai_command\<close> return is normalised: it has
  a string field \<^verbatim>\<open>id\<close> and no field \<^verbatim>\<open>_id\<close>.
\<close>

theorem items_carry_string_id:
  assumes "has_ids st ''song''" and "has_ids st ''playlist''" and "has_ids st ''channel''"
  shows "(\<forall>items. fst (list_songs (Some st) query genre limit) = Inr (Items items) \<longrightarrow>
            list_all normalized items) \<and>
         (\<forall>items. fst (list_playlists (Some st) limit) = Inr (Items items) \<longrightarrow>
            list_all normalized items) \<and>
         (\<forall>items. fst (list_channels (Some st) genre limit) = Inr (Items items) \<longrightarrow>
            list_all normalized items) \<and>
         (\<forall>action items msg.
            fst (ai_command (Some st) transcript) = Inr (Command action (Some items) msg) \<longrightarrow>
            list_all normalized items)"
proof (intro conjI allI impI)
  fix items
  assume "fst (list_songs (Some st) query genre limit) = Inr (Items items)"
  then obtain docs where "fst (get_documents (Some st) ''song'' (songs_filter query genre) limit) = Inr docs"
    "items = map normalize_id docs"
    by (auto simp: list_songs_def split: prod.splits sum.splits)
  then show "list_all normalized items"
    using items_normalized [OF assms(1)] by blast
next
  fix items
  assume "fst (list_playlists (Some st) limit) = Inr (Items items)"
  then obtain docs where "fst (get_documents (Some st) ''playlist'' [] limit) = Inr docs"
    "items = map normalize_id docs"
    by (auto simp: list_playlists_def split: prod.splits sum.splits)
  then show "list_all normalized items"
    using items_normalized [OF assms(2)] by blast
next
  fix items
  assume "fst (list_channels (Some st) genre limit) = Inr (Items items)"
  then obtain docs where "fst (get_documents (Some st) ''channel'' (channels_filter genre) limit) = Inr docs"
    "items = map normalize_id docs"
    by (auto simp: list_channels_def split: prod.splits sum.splits)
  then show "list_all normalized items"
    using items_normalized [OF assms(3)] by blast
next
  fix action items msg
  assume "fst (ai_command (Some st) transcript) = Inr (Command action (Some items) msg)"
  then consider docs x where
      "get_documents (Some st) ''channel''
         (phrase_filter ''name'' ''genre'' (channel_keyword (strip (lower transcript)))) 5 = (Inr docs, x)"
      "items = map normalize_id docs"
    | docs x where
      "get_documents (Some st) ''song''
         (phrase_filter ''title'' ''artist'' (song_query (strip (lower transcript)))) 10 = (Inr docs, x)"
      "items = map normalize_id docs"
    by (auto simp: ai_command_def Let_def split: if_splits prod.splits sum.splits)
  then show "list_all normalized items"
  proof cases
    case 1
    from 1(1) have "fst (get_documents (Some st) ''channel''
         (phrase_filter ''name'' ''genre'' (channel_keyword (strip (lower transcript)))) 5) = Inr docs"
      by simp
    then show ?thesis unfolding 1(2) by (rule items_normalized [OF assms(3)])
  next
    case 2
    from 2(1) have "fst (get_documents (Some st) ''song''
         (phrase_filter ''title'' ''artist'' (song_query (strip (lower transcript)))) 10) = Inr docs"
      by simp
    then show ?thesis unfolding 2(2) by (rule items_normalized [OF assms(1)])
  qed
qed

theorem items_carry_string_id_witness:
  "has_ids sample_store ''song'' \<and> has_ids sample_store ''playlist'' \<and>
   has_ids sample_store ''channel'' \<and>
   (\<exists>d1 d2. fst (list_songs (Some sample_store) None None 50) = Inr (Items [d1, d2]) \<and>
      normalized d1 \<and> normalized d2 \<and>
      map_of d1 ''id'' = Some (BStr (py_str (BOid 1))))"
proof -
  have h: "has_ids sample_store ''song''" "has_ids sample_store ''playlist''"
    "has_ids sample_store ''channel''"
    by (simp_all add: has_ids_def sample_store_def)
  have e: "fst (list_songs (Some sample_store) None None 50) =
      Inr (Items (map normalize_id (collections sample_store ''song'')))"
    by (simp add: list_songs_def get_documents_def find_all_def songs_filter_def matches_def
        filter_modelled_def sample_store_def)
  from items_carry_string_id [OF h, of None None 50 "[]"] e
  have "list_all normalized (map normalize_id (collections sample_store ''song''))"
    by blast
  then show ?thesis
    using h e by (simp add: sample_store_def normalize_id_def)
qed

text \<open>
  C7. With a channel collection that holds at least one document, whatever it is,
  \<^verbatim>\<open>seed_channels\<close> answers "Channels already seeded", leaves every collection as it was
  and has only counted. With an empty channel collection it answers
  "Seeded default channels" and the collection holds the three default channels, in
  order, each under the identifier the store assigned.
\<close>

theorem seed_channels_guard:
  "(collections st ''channel'' \<noteq> [] \<longrightarrow>
      (\<exists>st'. seed_channels (Some st) = (Inr (Message ''Channels already seeded''), Some st') \<and>
         collections st' = collections st \<and>
         calls st' = calls st @ [CountDocuments ''channel'' []])) \<and>
   (collections st ''channel'' = [] \<longrightarrow>
      (\<exists>st'. seed_channels (Some st) = (Inr (Message ''Seeded default channels''), Some st') \<and>
         collections st' ''channel'' =
           map (\<lambda>(i, d). (''_id'', BOid (next_oid st + i)) # d) (zip [0..<length defaults] defaults) \<and>
         length (collections st' ''channel'') = 3 \<and>
         (\<forall>c. c \<noteq> ''channel'' \<longrightarrow> collections st' c = collections st c) \<and>
         calls st' = calls st @ CountDocuments ''channel'' [] # map (InsertOne ''channel'') defaults))"
proof (intro conjI impI)
  assume "collections st ''channel'' \<noteq> []"
  then have "seed_channels (Some st) =
      (Inr (Message ''Channels already seeded''), Some (called (CountDocuments ''channel'' []) st))"
    by (simp add: seed_channels_def count_documents_all)
  then show "\<exists>st'. seed_channels (Some st) = (Inr (Message ''Channels already seeded''), Some st') \<and>
         collections st' = collections st \<and>
         calls st' = calls st @ [CountDocuments ''channel'' []]"
    by (simp add: collections_called calls_called)
next
  assume e: "collections st ''channel'' = []"
  define st1 where "st1 = called (CountDocuments ''channel'' []) st"
  obtain st' where st': "create_each (Some st1) defaults = (Inr (), Some st')"
    "collections st' ''channel'' = collections st1 ''channel'' @
       map (\<lambda>(i, d). (''_id'', BOid (next_oid st1 + i)) # d) (zip [0..<length defaults] defaults)"
    "\<forall>c. c \<noteq> ''channel'' \<longrightarrow> collections st' c = collections st1 c"
    "calls st' = calls st1 @ map (InsertOne ''channel'') defaults"
    using create_each_Some [of st1 defaults] by blast
  have 1: "seed_channels (Some st) = (Inr (Message ''Seeded default channels''), Some st')"
    using e st'(1) by (simp add: seed_channels_def count_documents_all st1_def)
  have 2: "collections st' ''channel'' =
       map (\<lambda>(i, d). (''_id'', BOid (next_oid st + i)) # d) (zip [0..<length defaults] defaults)"
    using st'(2) e by (simp add: st1_def collections_called next_oid_called)
  have 3: "length (collections st' ''channel'') = 3"
    unfolding 2 by (simp add: defaults_def)
  have 4: "\<forall>c. c \<noteq> ''channel'' \<longrightarrow> collections st' c = collections st c"
    using st'(3) by (simp add: st1_def collections_called)
  have 5: "calls st' = calls st @ CountDocuments ''channel'' [] # map (InsertOne ''channel'') defaults"
    using st'(4) by (simp add: st1_def calls_called)
  from 1 2 3 4 5
  show "\<exists>st'. seed_channels (Some st) = (Inr (Message ''Seeded default channels''), Some st') \<and>
         collections st' ''channel'' =
           map (\<lambda>(i, d). (''_id'', BOid (next_oid st + i)) # d) (zip [0..<length defaults] defaults) \<and>
         length (collections st' ''channel'') = 3 \<and>
         (\<forall>c. c \<noteq> ''channel'' \<longrightarrow> collections st' c = collections st c) \<and>
         calls st' = calls st @ CountDocuments ''channel'' [] # map (InsertOne ''channel'') defaults"
    by blast
qed

theorem seed_channels_guard_witness:
  "collections other_store ''channel'' \<noteq> [] \<and>
   fst (seed_channels (Some other_store)) = Inr (Message ''Channels already seeded'') \<and>
   collections sample_store ''channel'' = [] \<and>
   fst (seed_channels (Some sample_store)) = Inr (Message ''Seeded default channels'')"
proof -
  have a: "collections other_store ''channel'' \<noteq> []"
    by (simp add: other_store_def)
  have b: "collections sample_store ''channel'' = []"
    by (simp add: sample_store_def)
  from seed_channels_guard [of other_store] a
  have "fst (seed_channels (Some other_store)) = Inr (Message ''Channels already seeded'')"
    by auto
  moreover from seed_channels_guard [of sample_store] b
  have "fst (seed_channels (Some sample_store)) = Inr (Message ''Seeded default channels'')"
    by auto
  ultimately show ?thesis using a b by blast
qed

text \<open>
  C2. With the store handle set, the calls of \<^verbatim>\<open>add_song_to_playlist\<close> on the client
  start with the \<^verbatim>\<open>find_one\<close> and the \<^verbatim>\<open>update_one\<close> of line 102, whose update document
  is empty; the updates of the lookup, with \<^verbatim>\<open>$addToSet\<close>, come after it. When the client
  refuses the empty update document with a message, the handler raises the internal error
  of status 500 with that message, no collection has changed and no further call was made.
\<close>

theorem empty_update_precedes_lookup:
  "(\<exists>found rest st'. snd (add_song_to_playlist (Some st) payload) = Some st' \<and>
      calls st' = calls st @
        FindOne ''playlist'' [Field ''_id'' TypeObjectId] #
        UpdateOne ''playlist'' [Field ''_id'' (EqFound found)] EmptyUpdate # rest \<and>
      (\<forall>c\<in>set rest. \<exists>q. c = UpdateOne ''playlist'' q (AddToSet ''song_ids'' (BStr (song_id payload))))) \<and>
   (on_empty_update st = Some msg \<longrightarrow>
      (\<exists>found st'. add_song_to_playlist (Some st) payload = (Inl (HTTPException 500 msg), Some st') \<and>
         collections st' = collections st \<and>
         calls st' = calls st @
           [FindOne ''playlist'' [Field ''_id'' TypeObjectId],
            UpdateOne ''playlist'' [Field ''_id'' (EqFound found)] EmptyUpdate]))"
proof -
  define found where "found = List.find (matches [Field ''_id'' TypeObjectId]) (collections st ''playlist'')"
  define st1 where "st1 = called (FindOne ''playlist'' [Field ''_id'' TypeObjectId]) st"
  obtain r st2 where u: "update_one st1 ''playlist'' [Field ''_id'' (EqFound found)] EmptyUpdate = (r, st2)"
    by (cases "update_one st1 ''playlist'' [Field ''_id'' (EqFound found)] EmptyUpdate")
  have c2: "calls st2 = calls st @
        [FindOne ''playlist'' [Field ''_id'' TypeObjectId],
         UpdateOne ''playlist'' [Field ''_id'' (EqFound found)] EmptyUpdate]"
    using update_one_calls [of st1 "''playlist''" "[Field ''_id'' (EqFound found)]" EmptyUpdate] u
    by (simp add: st1_def calls_called)
  have first: "\<exists>found rest st'. snd (add_song_to_playlist (Some st) payload) = Some st' \<and>
      calls st' = calls st @
        FindOne ''playlist'' [Field ''_id'' TypeObjectId] #
        UpdateOne ''playlist'' [Field ''_id'' (EqFound found)] EmptyUpdate # rest \<and>
      (\<forall>c\<in>set rest. \<exists>q. c = UpdateOne ''playlist'' q (AddToSet ''song_ids'' (BStr (song_id payload))))"
  proof (cases r)
    case (Inl e)
    then have "snd (add_song_to_playlist (Some st) payload) = Some st2"
      using u by (simp add: add_song_to_playlist_def find_one_typed found_def st1_def)
    moreover have "calls st2 = calls st @
        FindOne ''playlist'' [Field ''_id'' TypeObjectId] #
        UpdateOne ''playlist'' [Field ''_id'' (EqFound found)] EmptyUpdate # []"
      using c2 by simp
    ultimately show ?thesis by (metis empty_iff list.set(1))
  next
    case (Inr x)
    obtain rest where rest: "calls (snd (add_by_identifier st2 payload)) = calls st2 @ rest"
      "\<forall>c\<in>set rest. \<exists>q. c = UpdateOne ''playlist'' q (AddToSet ''song_ids'' (BStr (song_id payload)))"
      using add_by_identifier_calls [of st2 payload] by blast
    have "snd (add_song_to_playlist (Some st) payload) = Some (snd (add_by_identifier st2 payload))"
      using u Inr
      by (simp add: add_song_to_playlist_def find_one_typed found_def st1_def
          split: prod.splits sum.splits)
    moreover have "calls (snd (add_by_identifier st2 payload)) = calls st @
        FindOne ''playlist'' [Field ''_id'' TypeObjectId] #
        UpdateOne ''playlist'' [Field ''_id'' (EqFound found)] EmptyUpdate # rest"
      using rest(1) c2 by simp
    ultimately show ?thesis using rest(2) by blast
  qed
  have second: "on_empty_update st = Some msg \<longrightarrow>
      (\<exists>found st'. add_song_to_playlist (Some st) payload = (Inl (HTTPException 500 msg), Some st') \<and>
         collections st' = collections st \<and>
         calls st' = calls st @
           [FindOne ''playlist'' [Field ''_id'' TypeObjectId],
            UpdateOne ''playlist'' [Field ''_id'' (EqFound found)] EmptyUpdate])"
  proof
    assume m: "on_empty_update st = Some msg"
    then have "on_empty_update st1 = Some msg"
      by (simp add: st1_def called_def)
    then have r: "update_one st1 ''playlist'' [Field ''_id'' (EqFound found)] EmptyUpdate =
        (Inl (Exception msg), called (UpdateOne ''playlist'' [Field ''_id'' (EqFound found)] EmptyUpdate) st1)"
      by (rule update_one_refused)
    with u have rr: "r = Inl (Exception msg)"
      and s2: "st2 = called (UpdateOne ''playlist'' [Field ''_id'' (EqFound found)] EmptyUpdate) st1"
      by simp_all
    have "add_song_to_playlist (Some st) payload = (Inl (HTTPException 500 msg), Some st2)"
      using u unfolding rr
      by (simp add: add_song_to_playlist_def find_one_typed found_def st1_def)
    moreover have "collections st2 = collections st"
      unfolding s2 by (simp add: st1_def collections_called)
    ultimately show "\<exists>found st'. add_song_to_playlist (Some st) payload = (Inl (HTTPException 500 msg), Some st') \<and>
         collections st' = collections st \<and>
         calls st' = calls st @
           [FindOne ''playlist'' [Field ''_id'' TypeObjectId],
            UpdateOne ''playlist'' [Field ''_id'' (EqFound found)] EmptyUpdate]"
      using c2 by blast
  qed
  from first second show ?thesis by blast
qed

theorem empty_update_precedes_lookup_witness:
  "on_empty_update strict_store = Some ''update cannot be empty'' \<and>
   fst (add_song_to_playlist (Some strict_store)
          \<lparr>playlist_id = ''000000000000000000000003'', song_id = ''s1''\<rparr>) =
     Inl (HTTPException 500 ''update cannot be empty'') \<and>
   map_option (\<lambda>s. collections s ''playlist'')
     (snd (add_song_to_playlist (Some strict_store)
          \<lparr>playlist_id = ''000000000000000000000003'', song_id = ''s1''\<rparr>)) =
     Some (collections sample_store ''playlist'')"
proof -
  have h: "on_empty_update strict_store = Some ''update cannot be empty''"
    by (simp add: strict_store_def)
  have c: "collections strict_store = collections sample_store"
    by (simp add: strict_store_def)
  from empty_update_precedes_lookup [of strict_store
      "\<lparr>playlist_id = ''000000000000000000000003'', song_id = ''s1''\<rparr>" "''update cannot be empty''"] h
  obtain st' where "add_song_to_playlist (Some strict_store)
        \<lparr>playlist_id = ''000000000000000000000003'', song_id = ''s1''\<rparr> =
      (Inl (HTTPException 500 ''update cannot be empty''), Some st')"
    "collections st' = collections strict_store"
    by blast
  then show ?thesis using h c by simp
qed

text \<open>
  C5, amended. For a genre parameter that is literal text, the filter of \<^verbatim>\<open>list_channels\<close>
  and of \<^verbatim>\<open>list_songs\<close> matches exactly the records whose genre, read without case, is
  the parameter, or the parameter followed by one final newline (the anchor \<^verbatim>\<open>$\<close> also
  holds just before a newline that ends the subject). \<^verbatim>\<open>list_channels\<close> returns these
  records, up to the limit. "Rock" matches the stored genre "rock" and not "Rock Music".
\<close>

theorem genre_filter_anchored:
  assumes "literal_text genre" and "genre \<noteq> []"
  shows "matches (channels_filter (Some genre)) d =
           (\<exists>s\<in>set (strings_of d ''genre'').
              lower s = lower genre \<or> lower s = lower genre @ [CHR 0x0A]) \<and>
         matches (songs_filter None (Some genre)) d =
           (\<exists>s\<in>set (strings_of d ''genre'').
              lower s = lower genre \<or> lower s = lower genre @ [CHR 0x0A]) \<and>
         fst (list_channels (Some st) (Some genre) limit) =
           Inr (Items (map normalize_id (take limit
             (filter (\<lambda>d. \<exists>s\<in>set (strings_of d ''genre'').
                        lower s = lower genre \<or> lower s = lower genre @ [CHR 0x0A])
                (collections st ''channel'')))))"
proof -
  have 1: "channels_filter (Some genre) = [genre_clause genre]"
    using assms(2) by (simp add: channels_filter_def)
  have 2: "songs_filter None (Some genre) = [genre_clause genre]"
    using assms(2) by (simp add: songs_filter_def)
  have 3: "matches [genre_clause genre] =
      (\<lambda>d. \<exists>s\<in>set (strings_of d ''genre''). lower s = lower genre \<or> lower s = lower genre @ [CHR 0x0A])"
    using matches_genre [OF assms(1)] by (intro ext)
  have "fst (list_channels (Some st) (Some genre) limit) =
      Inr (Items (map normalize_id (take limit (filter (matches [genre_clause genre])
        (collections st ''channel'')))))"
    using filter_modelled_genre [OF assms(1)]
    by (simp add: list_channels_def get_documents_def find_all_def 1)
  then show ?thesis
    unfolding 1 2 3 by simp
qed

theorem genre_filter_anchored_witness:
  "literal_text ''Rock'' \<and> ''Rock'' \<noteq> [] \<and>
   matches (channels_filter (Some ''Rock'')) [(''name'', BStr ''Classic Rock FM''), (''genre'', BStr ''rock'')] \<and>
   \<not> matches (channels_filter (Some ''Rock'')) [(''name'', BStr ''Other''), (''genre'', BStr ''Rock Music'')] \<and>
   matches (songs_filter None (Some ''Rock'')) [(''title'', BStr ''Yellow''), (''genre'', BStr ''rock'')]"
proof -
  have h: "literal_text ''Rock''" "''Rock'' \<noteq> []"
    by (simp_all add: literal_text_def unsupported_metachars_def)
  note t = genre_filter_anchored [OF h]
  have a: "matches (channels_filter (Some ''Rock''))
      [(''name'', BStr ''Classic Rock FM''), (''genre'', BStr ''rock'')]"
    using t [of "[(''name'', BStr ''Classic Rock FM''), (''genre'', BStr ''rock'')]" sample_store 0]
    by (simp add: strings_of_def candidates_def lower_def lower_char_def)
  have b: "\<not> matches (channels_filter (Some ''Rock''))
      [(''name'', BStr ''Other''), (''genre'', BStr ''Rock Music'')]"
    using t [of "[(''name'', BStr ''Other''), (''genre'', BStr ''Rock Music'')]" sample_store 0]
    by (simp add: strings_of_def candidates_def lower_def lower_char_def)
  have c: "matches (songs_filter None (Some ''Rock''))
      [(''title'', BStr ''Yellow''), (''genre'', BStr ''rock'')]"
    using t [of "[(''title'', BStr ''Yellow''), (''genre'', BStr ''rock'')]" sample_store 0]
    by (simp add: strings_of_def candidates_def lower_def lower_char_def)
  from h a b c show ?thesis by blast
qed

text \<open>
  C5, as stated: the parameter is placed in the pattern as it is, so its metacharacters
  act: "r.ck" matches the stored genre "rock", which is not equal to it without case. And
  "rock" matches a stored genre "rock" followed by a newline.
\<close>

theorem genre_filter_counterexample:
  "matches (channels_filter (Some ''r.ck'')) [(''genre'', BStr ''rock'')] \<and>
   lower ''rock'' \<noteq> lower ''r.ck'' \<and>
   matches (songs_filter None (Some ''r.ck'')) [(''genre'', BStr ''rock'')] \<and>
   matches (channels_filter (Some ''rock'')) [(''genre'', BStr (''rock'' @ [CHR 0x0A]))] \<and>
   lower (''rock'' @ [CHR 0x0A]) \<noteq> lower ''rock''"
  by (simp add: matches_def channels_filter_def songs_filter_def genre_clause_def candidates_def
      regex_search_def atom_of_def char_eq_def lower_def lower_char_def)

text \<open>
  C6, amended. For a query that is literal text, the filter of \<^verbatim>\<open>list_songs\<close> matches
  exactly the records whose title or artist contains the query, read without case, and
  the handler returns these records, up to the limit. With a query and a genre the filter
  matches exactly the records that the query filter and the genre filter both match.
\<close>

theorem free_text_filter_substring:
  "(literal_text query \<and> query \<noteq> [] \<longrightarrow>
      matches (songs_filter (Some query) None) d =
        ((\<exists>s\<in>set (strings_of d ''title''). contains (lower query) (lower s)) \<or>
         (\<exists>s\<in>set (strings_of d ''artist''). contains (lower query) (lower s)))) \<and>
   (literal_text query \<and> query \<noteq> [] \<longrightarrow>
      fst (list_songs (Some st) (Some query) None limit) =
        Inr (Items (map normalize_id (take limit
          (filter (\<lambda>d. (\<exists>s\<in>set (strings_of d ''title''). contains (lower query) (lower s)) \<or>
                        (\<exists>s\<in>set (strings_of d ''artist''). contains (lower query) (lower s)))
             (collections st ''song'')))))) \<and>
   (query \<noteq> [] \<and> genre \<noteq> [] \<longrightarrow>
      matches (songs_filter (Some query) (Some genre)) d =
        (matches (songs_filter (Some query) None) d \<and> matches (songs_filter None (Some genre)) d))"
proof (intro conjI impI)
  assume a: "literal_text query \<and> query \<noteq> []"
  then have 1: "songs_filter (Some query) None = [either_field ''title'' ''artist'' query]"
    by (simp add: songs_filter_def)
  show "matches (songs_filter (Some query) None) d =
        ((\<exists>s\<in>set (strings_of d ''title''). contains (lower query) (lower s)) \<or>
         (\<exists>s\<in>set (strings_of d ''artist''). contains (lower query) (lower s)))"
    unfolding 1 using a by (simp add: matches_either)
  have 3: "matches [either_field ''title'' ''artist'' query] =
      (\<lambda>d. (\<exists>s\<in>set (strings_of d ''title''). contains (lower query) (lower s)) \<or>
           (\<exists>s\<in>set (strings_of d ''artist''). contains (lower query) (lower s)))"
    using a matches_either [of query "''title''" "''artist''"] by (intro ext) simp
  have "fst (list_songs (Some st) (Some query) None limit) =
      Inr (Items (map normalize_id (take limit (filter (matches [either_field ''title'' ''artist'' query])
        (collections st ''song'')))))"
    using a filter_modelled_either [of query "''title''" "''artist''"]
    by (simp add: list_songs_def get_documents_def find_all_def 1)
  then show "fst (list_songs (Some st) (Some query) None limit) =
        Inr (Items (map normalize_id (take limit
          (filter (\<lambda>d. (\<exists>s\<in>set (strings_of d ''title''). contains (lower query) (lower s)) \<or>
                        (\<exists>s\<in>set (strings_of d ''artist''). contains (lower query) (lower s)))
             (collections st ''song'')))))"
    unfolding 3 .
next
  assume "query \<noteq> [] \<and> genre \<noteq> []"
  then show "matches (songs_filter (Some query) (Some genre)) d =
        (matches (songs_filter (Some query) None) d \<and> matches (songs_filter None (Some genre)) d)"
    by (simp add: songs_filter_def matches_def)
qed

theorem free_text_filter_substring_witness:
  "literal_text ''cold'' \<and> ''cold'' \<noteq> [] \<and> ''Rock'' \<noteq> [] \<and>
   matches (songs_filter (Some ''cold'') None)
     [(''title'', BStr ''Yellow''), (''artist'', BStr ''Coldplay''), (''genre'', BStr ''rock'')] \<and>
   matches (songs_filter (Some ''cold'') (Some ''Rock''))
     [(''title'', BStr ''Yellow''), (''artist'', BStr ''Coldplay''), (''genre'', BStr ''rock'')] \<and>
   \<not> matches (songs_filter (Some ''cold'') (Some ''Rock''))
     [(''title'', BStr ''Yellow''), (''artist'', BStr ''Coldplay''), (''genre'', BStr ''pop'')]"
proof -
  have h: "literal_text ''cold'' \<and> ''cold'' \<noteq> []"
    by (simp add: literal_text_def unsupported_metachars_def)
  have h2: "''cold'' \<noteq> [] \<and> ''Rock'' \<noteq> []"
    by simp
  have g: "literal_text ''Rock''" "''Rock'' \<noteq> []"
    by (simp_all add: literal_text_def unsupported_metachars_def)
  let ?d = "[(''title'', BStr ''Yellow''), (''artist'', BStr ''Coldplay''), (''genre'', BStr ''rock'')]"
  let ?e = "[(''title'', BStr ''Yellow''), (''artist'', BStr ''Coldplay''), (''genre'', BStr ''pop'')]"
  note t = free_text_filter_substring [of "''cold''" _ sample_store 0 "''Rock''"]
  have a: "matches (songs_filter (Some ''cold'') None) ?d"
    using t [of ?d] h by (simp add: strings_of_def candidates_def lower_def lower_char_def)
  have a': "matches (songs_filter (Some ''cold'') None) ?e"
    using t [of ?e] h by (simp add: strings_of_def candidates_def lower_def lower_char_def)
  have gd: "matches (songs_filter None (Some ''Rock'')) ?d"
    using matches_genre [OF g(1), of ?d]
    by (simp add: songs_filter_def strings_of_def candidates_def lower_def lower_char_def)
  have ge: "\<not> matches (songs_filter None (Some ''Rock'')) ?e"
    using matches_genre [OF g(1), of ?e]
    by (simp add: songs_filter_def strings_of_def candidates_def lower_def lower_char_def)
  have b: "matches (songs_filter (Some ''cold'') (Some ''Rock'')) ?d"
    using t [of ?d] h2 a gd by blast
  have c: "\<not> matches (songs_filter (Some ''cold'') (Some ''Rock'')) ?e"
    using t [of ?e] h2 ge by blast
  from h h2 a b c show ?thesis by blast
qed

text \<open>
  C6, as stated: the query is a pattern, not a substring: "c.ld" matches the artist
  "Coldplay", and neither the title nor the artist contains "c.ld".
\<close>

theorem free_text_filter_counterexample:
  "matches (songs_filter (Some ''c.ld'') None)
     [(''title'', BStr ''Yellow''), (''artist'', BStr ''Coldplay'')] \<and>
   \<not> contains (lower ''c.ld'') (lower ''Yellow'') \<and>
   \<not> contains (lower ''c.ld'') (lower ''Coldplay'')"
  by (simp add: matches_def songs_filter_def either_field_def candidates_def
      regex_search_def atom_of_def char_eq_def lower_def lower_char_def)

text \<open>
  C1, at a request that names a playlist the store holds. The store holds one playlist,
  of \<^verbatim>\<open>_id\<close> 000000000000000000000003 and without songs, behind a client that refuses
  the empty update document, as the driver does. The request to add the song \<^verbatim>\<open>s1\<close> to
  this playlist is answered with the internal error of status 500. The calls on the
  client are the \<^verbatim>\<open>find_one\<close> and the \<^verbatim>\<open>update_one\<close> of line 102 and no other: the lookup
  by identifier of lines 104 to 110 is not reached, and the store is as it was, the song
  is not in the playlist.
\<close>

theorem playlist_add_aborted:
  "collections strict_store ''playlist'' =
     [[(''_id'', BOid 3), (''name'', BStr ''mix''), (''description'', BNull), (''song_ids'', BArr [])]] \<and>
   ObjectId ''000000000000000000000003'' = Inr (BOid 3) \<and>
   add_song_to_playlist (Some strict_store)
       \<lparr>playlist_id = ''000000000000000000000003'', song_id = ''s1''\<rparr> =
     (Inl (HTTPException 500 ''update cannot be empty''),
      Some (strict_store\<lparr>calls :=
        [FindOne ''playlist'' [Field ''_id'' TypeObjectId],
         UpdateOne ''playlist''
           [Field ''_id'' (EqFound (Some [(''_id'', BOid 3), (''name'', BStr ''mix''),
              (''description'', BNull), (''song_ids'', BArr [])]))] EmptyUpdate]\<rparr>))"
proof -
  have c: "collections strict_store ''playlist'' =
     [[(''_id'', BOid 3), (''name'', BStr ''mix''), (''description'', BNull), (''song_ids'', BArr [])]]"
    by (simp add: strict_store_def sample_store_def)
  have o: "ObjectId ''000000000000000000000003'' = Inr (BOid 3)"
    by (simp add: ObjectId_def hex_value_def ascii_space_def)
  have f: "List.find (matches [Field ''_id'' TypeObjectId]) (collections strict_store ''playlist'') =
      Some [(''_id'', BOid 3), (''name'', BStr ''mix''), (''description'', BNull), (''song_ids'', BArr [])]"
    unfolding c by (simp add: matches_def candidates_def)
  have m: "on_empty_update (called (FindOne ''playlist'' [Field ''_id'' TypeObjectId]) strict_store) =
      Some ''update cannot be empty''"
    by (simp add: called_def strict_store_def)
  have "add_song_to_playlist (Some strict_store)
       \<lparr>playlist_id = ''000000000000000000000003'', song_id = ''s1''\<rparr> =
     (Inl (HTTPException 500 ''update cannot be empty''),
      Some (called (UpdateOne ''playlist''
           [Field ''_id'' (EqFound (Some [(''_id'', BOid 3), (''name'', BStr ''mix''),
              (''description'', BNull), (''song_ids'', BArr [])]))] EmptyUpdate)
           (called (FindOne ''playlist'' [Field ''_id'' TypeObjectId]) strict_store)))"
    by (simp add: add_song_to_playlist_def find_one_typed f update_one_refused [OF m])
  moreover have "calls strict_store = []"
    by (simp add: strict_store_def sample_store_def)
  ultimately show ?thesis using c o by (simp add: called_def)
qed

end
